theory Spec2Isabelle
  imports Complex_Main
begin

section \<open>Pagination component: the window of page numbers\<close>

text \<open>
  \<^verbatim>\<open>getPageNumbers\<close> of the \<^verbatim>\<open>Pagination\<close> component (Table module). Page numbers
  and the button count are integer-valued JavaScript numbers, modelled as \<^typ>\<open>int\<close>;
  \<^verbatim>\<open>Math.floor(maxPageButtons / 2)\<close> is \<open>maxPageButtons div 2\<close> (floored division).
  The \<^verbatim>\<open>for (let i = start; i <= end; i++) pages.push(i)\<close> loop is the recursion
  \<open>pushPages\<close>, which carries the array built so far.
\<close>

function pushPages :: "int \<Rightarrow> int \<Rightarrow> int list \<Rightarrow> int list" where
  "pushPages i end' pages = (if i \<le> end' then pushPages (i + 1) end' (pages @ [i]) else pages)"
  by pat_completeness auto
termination
  by (relation "measure (\<lambda>(i, end', pages). nat (end' + 1 - i))") auto

definition getPageNumbers :: "int \<Rightarrow> int \<Rightarrow> int \<Rightarrow> int list" where
  "getPageNumbers currentPage totalPages maxPageButtons =
     (let halfRange = maxPageButtons div 2;
          start = max 1 (currentPage - halfRange);
          end' = min totalPages (start + maxPageButtons - 1);
          start = (if end' - start + 1 < maxPageButtons
                   then max 1 (end' - maxPageButtons + 1) else start)
      in pushPages start end' [])"

section \<open>Authorization gate: the protected route\<close>

text \<open>
  Strings are lists of characters. \<^verbatim>\<open>String.prototype.toLowerCase\<close> is modelled on the
  ASCII letters \<open>A\<close> to \<open>Z\<close>, which is where the role names live; every other character
  is left as it is.
\<close>

definition toLowerCase_char :: "char \<Rightarrow> char" where
  "toLowerCase_char c =
     (case map_of (zip ''ABCDEFGHIJKLMNOPQRSTUVWXYZ'' ''abcdefghijklmnopqrstuvwxyz'') c of
        Some l \<Rightarrow> l
      | None \<Rightarrow> c)"

definition toLowerCase :: "string \<Rightarrow> string" where
  "toLowerCase s = map toLowerCase_char s"

text \<open>
  The identity the authentication context hands out (\<^verbatim>\<open>useAuth().user\<close>). Dates are
  milliseconds since the epoch. The role is optional because the component reads it
  with \<^verbatim>\<open>user.role?.toLowerCase()\<close>.
\<close>

type_synonym date = int

record User =
  user_id :: string
  user_email :: string
  user_role :: "string option"
  user_fullName :: "string option"
  user_organizationName :: "string option"
  user_phone :: "string option"
  user_createdAt :: date
  user_updatedAt :: date

text \<open>
  What the component returns: the loading spinner, a \<^verbatim>\<open><Navigate to=... replace />\<close>
  element, or its children.
\<close>

datatype element = LoadingSpinner | Navigate string | Children

text \<open>
  The callback of \<^verbatim>\<open>rolesToCheck.some\<close>: \<open>userRole\<close> is \<^verbatim>\<open>user.role?.toLowerCase()\<close>,
  \<open>None\<close> when the role is undefined (then every \<^verbatim>\<open>===\<close> against a string is false).
\<close>

definition roleGrants :: "string option \<Rightarrow> string \<Rightarrow> bool" where
  "roleGrants userRole role =
     (let requiredRoleNormalized = toLowerCase role in
      if userRole = Some ''admin'' then True
      else if userRole = Some ''organizer''
              \<and> (requiredRoleNormalized = ''organizer'' \<or> requiredRoleNormalized = ''user'')
        then True
      else userRole = Some requiredRoleNormalized)"

text \<open>
  \<^verbatim>\<open>ProtectedRoute\<close>. The inputs are the context's \<open>user\<close> and \<open>loading\<close> and the props
  \<open>requiredRoles\<close>, \<open>requiredRole\<close> and \<open>redirectTo\<close> (\<open>None\<close> for a prop that is not
  given; \<open>redirectTo\<close> defaults to \<^verbatim>\<open>'/login'\<close>). An empty \<open>requiredRole\<close> string is
  falsy, so the list prop is used then.
\<close>

definition rolesToCheck :: "string list option \<Rightarrow> string option \<Rightarrow> string list" where
  "rolesToCheck requiredRoles requiredRole =
     (case requiredRole of
        Some r \<Rightarrow> if r \<noteq> [] then [r] else (case requiredRoles of Some rs \<Rightarrow> rs | None \<Rightarrow> [])
      | None \<Rightarrow> (case requiredRoles of Some rs \<Rightarrow> rs | None \<Rightarrow> []))"

definition ProtectedRoute ::
  "User option \<Rightarrow> bool \<Rightarrow> string list option \<Rightarrow> string option \<Rightarrow> string option \<Rightarrow> element" where
  "ProtectedRoute user loading requiredRoles requiredRole redirectTo =
     (if loading then LoadingSpinner
      else case user of
        None \<Rightarrow> Navigate (case redirectTo of None \<Rightarrow> ''/login'' | Some p \<Rightarrow> p)
      | Some u \<Rightarrow>
          (let roles = rolesToCheck requiredRoles requiredRole in
           if length roles > 0 then
             (let userRole = map_option toLowerCase (user_role u);
                  hasRequiredRole = list_ex (roleGrants userRole) roles
              in if \<not> hasRequiredRole then Navigate ''/unauthorized'' else Children)
           else Children))"

text \<open>
  The decision rule as the specification words it, for comparison with the code: the
  organizer clause asks that \<^emph>\<open>all\<close> required roles lie in \<open>{organizer, user}\<close>.
\<close>

definition allowed_spec :: "string \<Rightarrow> string list \<Rightarrow> bool" where
  "allowed_spec role requiredRoles =
     (toLowerCase role = ''admin''
      \<or> (toLowerCase role = ''organizer''
          \<and> toLowerCase ` set requiredRoles \<subseteq> {''organizer'', ''user''})
      \<or> toLowerCase role \<in> toLowerCase ` set requiredRoles)"

section \<open>Activity directory: data\<close>

text \<open>
  The entities of \<^verbatim>\<open>api/mockData.ts\<close> and \<^verbatim>\<open>api/activities.api.ts\<close>. An optional
  property is an \<open>option\<close>; numbers that the code uses as counts, prices or ages are
  integers; string enums (\<^verbatim>\<open>ActivityType\<close>, \<^verbatim>\<open>UserRole\<close>) are the strings they are at
  run time. Field names carry a prefix where two records share a name.
\<close>

record Category =
  category_id :: string
  category_name :: string
  category_icon :: "string option"
  category_description :: "string option"

record Tag =
  tag_id :: string
  tag_name :: string
  tag_color :: "string option"

record Activity =
  activity_id :: string
  title :: string
  description :: string
  shortDescription :: "string option"
  activity_type :: string
  categoryId :: string
  category :: "Category option"
  location :: string
  address :: "string option"
  price :: int
  currency :: string
  imageUrl :: "string option"
  userId :: string
  organizer :: "User option"
  tags :: "Tag list"
  startDate :: "date option"
  endDate :: "date option"
  maxParticipants :: "int option"
  minAge :: "int option"
  maxAge :: "int option"
  contactEmail :: "string option"
  contactPhone :: "string option"
  externalLink :: "string option"
  isDeleted :: bool
  createdAt :: date
  updatedAt :: date

text \<open>
  \<^verbatim>\<open>ActivityFormData\<close>, with the properties the create and update calls read. \<open>form_image\<close>
  stands for the chosen file by the object URL that \<^verbatim>\<open>URL.createObjectURL\<close> gives it;
  \<open>form_startDate\<close> and \<open>form_endDate\<close> hold the instant that \<^verbatim>\<open>new Date(...)\<close> reads from
  the form value.
\<close>

record ActivityFormData =
  form_title :: string
  form_description :: string
  form_type :: string
  form_categoryId :: string
  form_location :: string
  form_address :: "string option"
  form_price :: "int option"
  form_image :: "string option"
  form_tags :: "string list option"
  form_startDate :: "date option"
  form_endDate :: "date option"
  form_maxParticipants :: "int option"
  form_minAge :: "int option"
  form_maxAge :: "int option"
  form_contactEmail :: "string option"
  form_contactPhone :: "string option"
  form_externalLink :: "string option"

record ActivityFilters =
  filter_type :: "string option"
  filter_categoryId :: "string option"
  filter_location :: "string option"
  filter_minPrice :: "int option"
  filter_maxPrice :: "int option"
  filter_search :: "string option"

text \<open>
  \<^verbatim>\<open>RawActivityData\<close>: the wire record, with the properties that
  \<^verbatim>\<open>transformRawActivity\<close> reads. The joined rows are pairs and triples of strings.
\<close>

record RawActivityData =
  raw_id :: string
  raw_title :: string
  raw_description :: string
  raw_short_description :: "string option"
  raw_type :: string
  raw_category_id :: string
  raw_location :: string
  raw_price :: int
  raw_currency :: string
  raw_date_time :: string
  raw_max_participants :: int
  raw_organizer_id :: string
  raw_contact_email :: string
  raw_contact_phone :: "string option"
  raw_image_urls :: "string list option"
  raw_tags :: "string list option"
  raw_created_at :: string
  raw_updated_at :: string
  raw_categories :: "(string \<times> string) option"
  raw_user_profiles :: "(string \<times> string \<times> string) option"

text \<open>
  The errors the calls throw. \<open>NotFound\<close> is \<^verbatim>\<open>Error('Activity not found')\<close>;
  \<open>PermissionDenied\<close> is \<^verbatim>\<open>Error('Access denied: You can only edit your own activities')\<close>
  in the update and \<^verbatim>\<open>Error('You do not have permission to delete this activity')\<close> in
  the delete; \<open>NotImplemented\<close> is the error of a branch that has no real backend yet;
  \<open>BackendError\<close> is whatever the HTTP client throws.
\<close>

datatype error = NotFound | PermissionDenied | NotImplemented | BackendError string

text \<open>
  A JavaScript number where the code can leave the integers: \<^verbatim>\<open>parseInt\<close> may give
  \<^verbatim>\<open>NaN\<close>, and a division by a zero limit gives \<^verbatim>\<open>NaN\<close> or an infinity.
\<close>

datatype number = Num int | NaN | Infinity | NegInfinity

record response =
  response_data :: "RawActivityData list option"
  content_range :: "string option"

text \<open>
  The module state of \<^verbatim>\<open>api/mockData.ts\<close>: the arrays the calls read, and
  \<open>mockActivities\<close> which they also write.
\<close>

record mockData =
  mockCategories :: "Category list"
  mockTags :: "Tag list"
  mockUsers :: "User list"
  mockActivities :: "Activity list"

text \<open>
  What a call takes from its surroundings: the clock (\<^verbatim>\<open>new Date()\<close>, one instant per
  call), the parsing of a date string, the calendar month and year of an instant in the
  local time zone, the value of \<^verbatim>\<open>Math.random()\<close> (a binary64 number, as the pair
  described with \<open>unit_double\<close> below), and the HTTP client, which answers a list of query
  parameters with a response or throws.
\<close>

record env =
  Date_now :: date
  Date_parse :: "string \<Rightarrow> date"
  getMonth :: "date \<Rightarrow> nat"
  getFullYear :: "date \<Rightarrow> int"
  Math_random :: "int \<times> nat"
  apiClient_get :: "(string \<times> string) list \<Rightarrow> error + response"

text \<open>
  The object a listing call returns: \<^verbatim>\<open>{activities, pagination: {page, limit, total,
  totalPages, hasNext, hasPrevious}}\<close>.
\<close>

record pagination =
  p_page :: int
  p_limit :: int
  p_total :: number
  p_totalPages :: number
  p_hasNext :: bool
  p_hasPrevious :: bool

record listing =
  l_activities :: "Activity list"
  l_pagination :: pagination

record stats =
  total_activities :: int
  active_activities :: int
  pending_activities :: int
  total_participants :: int
  this_month_activities :: int

section \<open>Activity directory: the library calls the code makes\<close>

text \<open>
  \<^verbatim>\<open>Array.prototype.slice(start, end)\<close> on integer arguments: a negative index counts
  from the end, both are clamped to the array, and an empty range gives the empty array.
\<close>

definition slice :: "'a list \<Rightarrow> int \<Rightarrow> int \<Rightarrow> 'a list" where
  "slice xs start end' =
     (let len = int (length xs);
          k = (if start < 0 then max (len + start) 0 else min start len);
          final = (if end' < 0 then max (len + end') 0 else min end' len)
      in take (nat (final - k)) (drop (nat k) xs))"

text \<open>\<^verbatim>\<open>Array.prototype.findIndex\<close>, with \<open>None\<close> for the result \<open>-1\<close>.\<close>

fun findIndex :: "('a \<Rightarrow> bool) \<Rightarrow> 'a list \<Rightarrow> nat option" where
  "findIndex P [] = None"
| "findIndex P (x # xs) = (if P x then Some 0 else map_option Suc (findIndex P xs))"

text \<open>
  \<^verbatim>\<open>URLSearchParams.set(name, value)\<close>: the first entry of that name takes the value and
  the other entries of that name are removed; without such an entry a new one is appended.
\<close>

fun URLSearchParams_set :: "string \<Rightarrow> string \<Rightarrow> (string \<times> string) list \<Rightarrow> (string \<times> string) list" where
  "URLSearchParams_set name v [] = [(name, v)]"
| "URLSearchParams_set name v ((k, w) # ps) =
     (if k = name then (name, v) # filter (\<lambda>(k', _). k' \<noteq> name) ps
      else (k, w) # URLSearchParams_set name v ps)"

text \<open>\<^verbatim>\<open>URLSearchParams.getAll(name)\<close>: every value stored under the name.\<close>

definition URLSearchParams_getAll :: "string \<Rightarrow> (string \<times> string) list \<Rightarrow> string list" where
  "URLSearchParams_getAll name ps = map snd (filter (\<lambda>(k, _). k = name) ps)"

text \<open>The decimal text of an integer, as \<^verbatim>\<open>toString()\<close> and a template literal give it.\<close>

function toString_digits :: "int \<Rightarrow> string" where
  "toString_digits n =
     (if n < 10 then [''0123456789'' ! nat n]
      else toString_digits (n div 10) @ [''0123456789'' ! nat (n mod 10)])"
  by pat_completeness auto
termination
  by (relation "measure nat") auto

declare toString_digits.simps [simp del]

definition toString :: "int \<Rightarrow> string" where
  "toString i = (if i < 0 then CHR ''-'' # toString_digits (- i) else toString_digits i)"

text \<open>\<^verbatim>\<open>String.prototype.split(separator)\<close> for a one-character separator.\<close>

fun split_on :: "char \<Rightarrow> string \<Rightarrow> string list" where
  "split_on sep [] = [[]]"
| "split_on sep (c # cs) =
     (if c = sep then [] # split_on sep cs
      else (case split_on sep cs of w # ws \<Rightarrow> (c # w) # ws | [] \<Rightarrow> [[c]]))"

text \<open>
  \<^verbatim>\<open>parseInt(string)\<close> on ASCII text: leading white space is skipped, a sign is read, a
  \<^verbatim>\<open>0x\<close> prefix selects radix 16, and the longest run of digits is the value; without a
  digit the result is \<^verbatim>\<open>NaN\<close>. The argument \<^verbatim>\<open>undefined\<close> (\<open>None\<close>) reads as the text
  \<^verbatim>\<open>"undefined"\<close>, which has no digit.
\<close>

definition digitValue :: "char \<Rightarrow> nat option" where
  "digitValue c =
     (let n = (of_char c :: nat) in
      if 48 \<le> n \<and> n \<le> 57 then Some (n - 48)
      else if 97 \<le> n \<and> n \<le> 122 then Some (n - 87)
      else if 65 \<le> n \<and> n \<le> 90 then Some (n - 55)
      else None)"

definition isWhiteSpace :: "char \<Rightarrow> bool" where
  "isWhiteSpace c = ((of_char c :: nat) \<in> {9, 10, 11, 12, 13, 32})"

fun parseDigits :: "int \<Rightarrow> string \<Rightarrow> int option \<Rightarrow> int option" where
  "parseDigits radix [] acc = acc"
| "parseDigits radix (c # cs) acc =
     (case digitValue c of
        Some d \<Rightarrow>
          if int d < radix
          then parseDigits radix cs
                 (Some (radix * (case acc of None \<Rightarrow> 0 | Some a \<Rightarrow> a) + int d))
          else acc
      | None \<Rightarrow> acc)"

definition parseInt :: "string option \<Rightarrow> number" where
  "parseInt s =
     (case s of
        None \<Rightarrow> NaN
      | Some str \<Rightarrow>
          (let t = dropWhile isWhiteSpace str;
               neg = (take 1 t = ''-'');
               t = (if take 1 t = ''-'' \<or> take 1 t = ''+'' then drop 1 t else t);
               hex = (take 2 t = ''0x'' \<or> take 2 t = ''0X'');
               digits = (if hex then parseDigits 16 (drop 2 t) None else parseDigits 10 t None)
           in case digits of
                None \<Rightarrow> NaN
              | Some n \<Rightarrow> Num (if neg then - n else n)))"

text \<open>
  \<^verbatim>\<open>Math.ceil(totalCount / limit)\<close> for an integer limit: the ceiling of the quotient,
  and for a zero limit what IEEE division gives.
\<close>

definition Math_ceil_div :: "number \<Rightarrow> int \<Rightarrow> number" where
  "Math_ceil_div totalCount limit =
     (case totalCount of
        NaN \<Rightarrow> NaN
      | Num a \<Rightarrow>
          if limit = 0 then (if a = 0 then NaN else if 0 < a then Infinity else NegInfinity)
          else Num (- ((- a) div limit))
      | Infinity \<Rightarrow> if 0 \<le> limit then Infinity else NegInfinity
      | NegInfinity \<Rightarrow> if 0 \<le> limit then NegInfinity else Infinity)"

text \<open>\<^verbatim>\<open>page < totalPages\<close>, false against \<^verbatim>\<open>NaN\<close>.\<close>

definition less_number :: "int \<Rightarrow> number \<Rightarrow> bool" where
  "less_number p n =
     (case n of Num t \<Rightarrow> p < t | NaN \<Rightarrow> False | Infinity \<Rightarrow> True | NegInfinity \<Rightarrow> False)"

text \<open>
  Binary64 arithmetic of \<^verbatim>\<open>Math.floor(Math.random() * 200)\<close>. A pair \<open>(m, k)\<close> stands for the
  number \<open>m / 2 ^ k\<close>. The binary64 numbers in \<open>[0, 1)\<close>, which are the values of
  \<^verbatim>\<open>Math.random()\<close>, are the pairs with \<open>0 \<le> m < 2 ^ 53\<close>, \<open>m < 2 ^ k\<close> and \<open>k \<le> 1074\<close>.
  The product of such a number with a non-negative integer constant \<open>c < 2 ^ 53\<close> is the
  exact product \<open>c * m / 2 ^ k\<close> rounded to 53 significant bits, a tie going to the even
  significand: \<open>excess_bits\<close> counts the bits of \<open>c * m\<close> beyond 53 and \<open>round_half_even\<close>
  drops them. \<^verbatim>\<open>Math.floor\<close> of \<open>m / 2 ^ k\<close> is \<open>m div 2 ^ k\<close>.
\<close>

definition unit_double :: "int \<times> nat \<Rightarrow> bool" where
  "unit_double d = (case d of (m, k) \<Rightarrow> 0 \<le> m \<and> m < 2 ^ 53 \<and> m < 2 ^ k \<and> k \<le> 1074)"

function excess_bits :: "int \<Rightarrow> nat" where
  "excess_bits p = (if p < 2 ^ 53 then 0 else Suc (excess_bits (p div 2)))"
  by pat_completeness auto
termination
  by (relation "measure nat") auto

declare excess_bits.simps [simp del]

definition round_half_even :: "int \<Rightarrow> nat \<Rightarrow> int" where
  "round_half_even p s =
     (let q = p div 2 ^ s; rest = p mod 2 ^ s in
      if 2 * rest < 2 ^ s then q
      else if 2 * rest > 2 ^ s then q + 1
      else if even q then q else q + 1)"

definition times_binary64 :: "int \<times> nat \<Rightarrow> int \<Rightarrow> int \<times> nat" where
  "times_binary64 d c =
     (case d of (m, k) \<Rightarrow>
        (let p = c * m; s = excess_bits p; q = round_half_even p s
         in (q * 2 ^ s, k)))"

definition Math_floor :: "int \<times> nat \<Rightarrow> int" where
  "Math_floor d = (case d of (m, k) \<Rightarrow> m div 2 ^ k)"

section \<open>Activity directory: the calls\<close>

text \<open>The compile-time switch of \<^verbatim>\<open>activities.api.ts\<close>.\<close>

definition USE_MOCK_DATA :: bool where
  "USE_MOCK_DATA = True"

text \<open>
  Modelled from the spec: the enum \<^verbatim>\<open>UserRole\<close> of \<^verbatim>\<open>../types\<close> is not among the sources;
  the roles are \<open>user\<close>, \<open>organizer\<close> and \<open>admin\<close>.
\<close>

definition UserRole_ORGANIZER :: string where
  "UserRole_ORGANIZER = ''organizer''"

definition transformRawActivity :: "env \<Rightarrow> RawActivityData \<Rightarrow> Activity" where
  "transformRawActivity e rawData =
     \<lparr>activity_id = raw_id rawData,
      title = raw_title rawData,
      description = raw_description rawData,
      shortDescription = raw_short_description rawData,
      activity_type = raw_type rawData,
      categoryId = raw_category_id rawData,
      category = (case raw_categories rawData of
                    Some (cid, cname) \<Rightarrow>
                      Some \<lparr>category_id = cid, category_name = cname,
                            category_icon = None, category_description = None\<rparr>
                  | None \<Rightarrow> None),
      location = raw_location rawData,
      address = None,
      price = raw_price rawData,
      currency = raw_currency rawData,
      imageUrl = (case raw_image_urls rawData of Some (u # _) \<Rightarrow> Some u | _ \<Rightarrow> None),
      userId = raw_organizer_id rawData,
      organizer = (case raw_user_profiles rawData of
                     Some (uid, full_name, mail) \<Rightarrow>
                       Some \<lparr>user_id = uid, user_email = mail,
                             user_role = Some UserRole_ORGANIZER,
                             user_fullName = Some full_name,
                             user_organizationName = None, user_phone = None,
                             user_createdAt = Date_now e, user_updatedAt = Date_now e\<rparr>
                   | None \<Rightarrow> None),
      tags = map (\<lambda>tagName. \<lparr>tag_id = tagName, tag_name = tagName, tag_color = None\<rparr>)
               (case raw_tags rawData of Some ts \<Rightarrow> ts | None \<Rightarrow> []),
      startDate = Some (Date_parse e (raw_date_time rawData)),
      endDate = None,
      maxParticipants = Some (raw_max_participants rawData),
      minAge = None,
      maxAge = None,
      contactEmail = Some (raw_contact_email rawData),
      contactPhone = raw_contact_phone rawData,
      externalLink = None,
      isDeleted = False,
      createdAt = Date_parse e (raw_created_at rawData),
      updatedAt = Date_parse e (raw_updated_at rawData)\<rparr>"

text \<open>
  \<^verbatim>\<open>getActivities\<close>. The query parameters are built first (\<open>getActivities_query\<close>) and
  handed to the HTTP client; the page is then computed from the response. A filter given
  as a string applies when it is present and not empty; a price bound applies when it is
  not \<^verbatim>\<open>undefined\<close>. The parameter defaults \<open>page = 1\<close> and \<open>limit = 10\<close> are values the
  caller passes here.
\<close>

definition if_truthy :: "string option \<Rightarrow> (string \<Rightarrow> 'a \<Rightarrow> 'a) \<Rightarrow> 'a \<Rightarrow> 'a" where
  "if_truthy s f q = (case s of Some v \<Rightarrow> if v \<noteq> [] then f v q else q | None \<Rightarrow> q)"

definition getActivities_query :: "ActivityFilters \<Rightarrow> int \<Rightarrow> int \<Rightarrow> (string \<times> string) list" where
  "getActivities_query filters page limit =
     (let queryParams = URLSearchParams_set ''select''
            ''*,category:categories(*),organizer:users(full_name,organization_name,email)'' [];
          queryParams = if_truthy (filter_type filters)
            (\<lambda>v. URLSearchParams_set ''type'' (''eq.'' @ v)) queryParams;
          queryParams = if_truthy (filter_categoryId filters)
            (\<lambda>v. URLSearchParams_set ''category_id'' (''eq.'' @ v)) queryParams;
          queryParams = if_truthy (filter_location filters)
            (\<lambda>v. URLSearchParams_set ''location'' (''ilike.*'' @ v @ ''*'')) queryParams;
          queryParams = (case filter_minPrice filters of
              Some m \<Rightarrow> URLSearchParams_set ''price'' (''gte.'' @ toString m) queryParams
            | None \<Rightarrow> queryParams);
          queryParams = (case filter_maxPrice filters of
              Some m \<Rightarrow> URLSearchParams_set ''price'' (''lte.'' @ toString m) queryParams
            | None \<Rightarrow> queryParams);
          queryParams = if_truthy (filter_search filters)
            (\<lambda>v. URLSearchParams_set ''or''
                   (''(title.ilike.*'' @ v @ ''*,description.ilike.*'' @ v @ ''*)'')) queryParams;
          queryParams = URLSearchParams_set ''is_deleted'' ''eq.false'' queryParams;
          queryParams = URLSearchParams_set ''order'' ''created_at.desc'' queryParams;
          offset = (page - 1) * limit;
          queryParams = URLSearchParams_set ''limit'' (toString limit) queryParams;
          queryParams = URLSearchParams_set ''offset'' (toString offset) queryParams
      in queryParams)"

definition getActivities :: "env \<Rightarrow> ActivityFilters \<Rightarrow> int \<Rightarrow> int \<Rightarrow> error + listing" where
  "getActivities e filters page limit =
     (case apiClient_get e (getActivities_query filters page limit) of
        Inl err \<Rightarrow> Inl err
      | Inr response \<Rightarrow>
          (let activities = (case response_data response of
                               Some rows \<Rightarrow> map (transformRawActivity e) rows
                             | None \<Rightarrow> []);
               contentRange = content_range response;
               totalCount = (case contentRange of
                               Some cr \<Rightarrow>
                                 if cr \<noteq> []
                                 then parseInt (case split_on CHR ''/'' cr of
                                                  _ # x # _ \<Rightarrow> Some x | _ \<Rightarrow> None)
                                 else Num (int (length activities))
                             | None \<Rightarrow> Num (int (length activities)));
               totalPages = Math_ceil_div totalCount limit
           in Inr \<lparr>l_activities = activities,
                   l_pagination =
                     \<lparr>p_page = page, p_limit = limit, p_total = totalCount,
                      p_totalPages = totalPages,
                      p_hasNext = less_number page totalPages,
                      p_hasPrevious = (page > 1)\<rparr>\<rparr>))"

text \<open>
  \<^verbatim>\<open>getUserActivities\<close>: with the mock data, the organizer's records, or all records
  when the filter leaves none, cut to the page; otherwise the same request as above with
  the \<^verbatim>\<open>user_id\<close> condition.
\<close>

definition getUserActivities_query :: "string \<Rightarrow> int \<Rightarrow> int \<Rightarrow> (string \<times> string) list" where
  "getUserActivities_query organizerId page limit =
     (let queryParams = URLSearchParams_set ''select''
            ''*,category:categories(*),organizer:users(full_name,organization_name,email)'' [];
          queryParams = URLSearchParams_set ''user_id'' (''eq.'' @ organizerId) queryParams;
          queryParams = URLSearchParams_set ''order'' ''created_at.desc'' queryParams;
          offset = (page - 1) * limit;
          queryParams = URLSearchParams_set ''limit'' (toString limit) queryParams;
          queryParams = URLSearchParams_set ''offset'' (toString offset) queryParams
      in queryParams)"

definition getUserActivities :: "env \<Rightarrow> mockData \<Rightarrow> string \<Rightarrow> int \<Rightarrow> int \<Rightarrow> error + listing" where
  "getUserActivities e db organizerId page limit =
     (if USE_MOCK_DATA then
        (let userActivities = filter
               (\<lambda>activity. userId activity = organizerId \<or> organizerId = ''current-user'')
               (mockActivities db);
             userActivities = (if length userActivities = 0 then mockActivities db
                               else userActivities);
             offset = (page - 1) * limit;
             paginatedActivities = slice userActivities offset (offset + limit);
             totalCount = Num (int (length userActivities));
             totalPages = Math_ceil_div totalCount limit
         in Inr \<lparr>l_activities = paginatedActivities,
                 l_pagination =
                   \<lparr>p_page = page, p_limit = limit, p_total = totalCount,
                    p_totalPages = totalPages,
                    p_hasNext = less_number page totalPages,
                    p_hasPrevious = (page > 1)\<rparr>\<rparr>)
      else
        (case apiClient_get e (getUserActivities_query organizerId page limit) of
           Inl err \<Rightarrow> Inl err
         | Inr response \<Rightarrow>
             (let activities = (case response_data response of
                                  Some rows \<Rightarrow> map (transformRawActivity e) rows
                                | None \<Rightarrow> []);
                  contentRange = content_range response;
                  totalCount = (case contentRange of
                                  Some cr \<Rightarrow>
                                    if cr \<noteq> []
                                    then parseInt (case split_on CHR ''/'' cr of
                                                     _ # x # _ \<Rightarrow> Some x | _ \<Rightarrow> None)
                                    else Num (int (length activities))
                                | None \<Rightarrow> Num (int (length activities)));
                  totalPages = Math_ceil_div totalCount limit
              in Inr \<lparr>l_activities = activities,
                      l_pagination =
                        \<lparr>p_page = page, p_limit = limit, p_total = totalCount,
                         p_totalPages = totalPages,
                         p_hasNext = less_number page totalPages,
                         p_hasPrevious = (page > 1)\<rparr>\<rparr>)))"

text \<open>
  The calls that write. Each takes the module state and returns its result with the state
  after it; a call that throws leaves the state as it found it.
\<close>

definition getActivityById :: "mockData \<Rightarrow> string \<Rightarrow> error + Activity" where
  "getActivityById db ident =
     (if USE_MOCK_DATA then
        (case find (\<lambda>a. activity_id a = ident) (mockActivities db) of
           None \<Rightarrow> Inl NotFound
         | Some activity \<Rightarrow> Inr activity)
      else Inl NotImplemented)"

definition createActivity ::
  "env \<Rightarrow> mockData \<Rightarrow> ActivityFormData \<Rightarrow> string \<Rightarrow> (error + Activity) \<times> mockData" where
  "createActivity e db formData organizerId =
     (if USE_MOCK_DATA then
        (let newActivity =
               \<lparr>activity_id = ''activity-'' @ toString (Date_now e),
                title = form_title formData,
                description = form_description formData,
                shortDescription = Some (take 100 (form_description formData)),
                activity_type = form_type formData,
                categoryId = form_categoryId formData,
                category = find (\<lambda>c. category_id c = form_categoryId formData)
                             (mockCategories db),
                location = form_location formData,
                address = form_address formData,
                price = (case form_price formData of Some p \<Rightarrow> p | None \<Rightarrow> 0),
                currency = ''EUR'',
                imageUrl = form_image formData,
                userId = organizerId,
                organizer = find (\<lambda>u. user_id u = organizerId) (mockUsers db),
                tags = (case form_tags formData of
                          Some tids \<Rightarrow>
                            List.map_filter
                              (\<lambda>tid. find (\<lambda>t. tag_id t = tid) (mockTags db)) tids
                        | None \<Rightarrow> []),
                startDate = form_startDate formData,
                endDate = form_endDate formData,
                maxParticipants = form_maxParticipants formData,
                minAge = form_minAge formData,
                maxAge = form_maxAge formData,
                contactEmail = form_contactEmail formData,
                contactPhone = form_contactPhone formData,
                externalLink = form_externalLink formData,
                isDeleted = False,
                createdAt = Date_now e,
                updatedAt = Date_now e\<rparr>
         in (Inr newActivity, db\<lparr>mockActivities := mockActivities db @ [newActivity]\<rparr>))
      else (Inl NotImplemented, db))"

definition updateActivity ::
  "env \<Rightarrow> mockData \<Rightarrow> string \<Rightarrow> ActivityFormData \<Rightarrow> string \<Rightarrow> (error + Activity) \<times> mockData" where
  "updateActivity e db ident formData organizerId =
     (if USE_MOCK_DATA then
        (case findIndex (\<lambda>a. activity_id a = ident) (mockActivities db) of
           None \<Rightarrow> (Inl NotFound, db)
         | Some activityIndex \<Rightarrow>
             (let existingActivity = mockActivities db ! activityIndex in
              if userId existingActivity \<noteq> organizerId then (Inl PermissionDenied, db)
              else
                (let updatedActivity = existingActivity
                       \<lparr>title := form_title formData,
                        description := form_description formData,
                        shortDescription := Some (take 100 (form_description formData)),
                        activity_type := form_type formData,
                        categoryId := form_categoryId formData,
                        category := find (\<lambda>c. category_id c = form_categoryId formData)
                                      (mockCategories db),
                        location := form_location formData,
                        address := form_address formData,
                        price := (case form_price formData of Some p \<Rightarrow> p | None \<Rightarrow> 0),
                        imageUrl := form_image formData,
                        tags := (case form_tags formData of
                                   Some tids \<Rightarrow>
                                     List.map_filter
                                       (\<lambda>tid. find (\<lambda>t. tag_id t = tid) (mockTags db)) tids
                                 | None \<Rightarrow> []),
                        startDate := form_startDate formData,
                        endDate := form_endDate formData,
                        maxParticipants := form_maxParticipants formData,
                        minAge := form_minAge formData,
                        maxAge := form_maxAge formData,
                        contactEmail := form_contactEmail formData,
                        contactPhone := form_contactPhone formData,
                        externalLink := form_externalLink formData,
                        updatedAt := Date_now e\<rparr>
                 in (Inr updatedActivity,
                     db\<lparr>mockActivities := (mockActivities db)[activityIndex := updatedActivity]\<rparr>))))
      else (Inl NotImplemented, db))"

text \<open>
  \<^verbatim>\<open>deleteActivity\<close>, the soft delete. The caller passes when it owns the record or is
  the literal \<^verbatim>\<open>'admin-user'\<close>.
\<close>

definition deleteActivity ::
  "env \<Rightarrow> mockData \<Rightarrow> string \<Rightarrow> string \<Rightarrow> (error + unit) \<times> mockData" where
  "deleteActivity e db ident organizerId =
     (if USE_MOCK_DATA then
        (case findIndex (\<lambda>a. activity_id a = ident) (mockActivities db) of
           None \<Rightarrow> (Inl NotFound, db)
         | Some activityIndex \<Rightarrow>
             (let activity = mockActivities db ! activityIndex in
              if userId activity \<noteq> organizerId \<and> organizerId \<noteq> ''admin-user''
              then (Inl PermissionDenied, db)
              else
                (Inr (),
                 db\<lparr>mockActivities := (mockActivities db)
                      [activityIndex := activity\<lparr>isDeleted := True, updatedAt := Date_now e\<rparr>]\<rparr>)))
      else (Inl NotImplemented, db))"

text \<open>
  \<^verbatim>\<open>getUserActivityStats\<close>. Its \<^verbatim>\<open>catch\<close> returns the all-zero record, which is what the
  call gives when the mock data is switched off. \<^verbatim>\<open>Math.floor(Math.random() * 200) + 50\<close> is
  computed in binary64: the product is rounded before the floor is taken, and adding 50 to
  an integer below 200 is exact.
\<close>

definition getUserActivityStats :: "env \<Rightarrow> mockData \<Rightarrow> string \<Rightarrow> stats" where
  "getUserActivityStats e db organizerId =
     (if USE_MOCK_DATA then
        (let userActivities = filter
               (\<lambda>activity. userId activity = organizerId \<or> organizerId = ''current-user'')
               (mockActivities db);
             activities = (if length userActivities > 0 then userActivities
                           else mockActivities db);
             total = int (length activities);
             active = int (length (filter (\<lambda>a. \<not> isDeleted a) activities));
             thisMonth = int (length (filter
               (\<lambda>a. let activityDate = createdAt a; now = Date_now e
                    in getMonth e activityDate = getMonth e now
                       \<and> getFullYear e activityDate = getFullYear e now)
               activities))
         in \<lparr>total_activities = total,
             active_activities = active,
             pending_activities = 2,
             total_participants = Math_floor (times_binary64 (Math_random e) 200) + 50,
             this_month_activities = thisMonth\<rparr>)
      else
        \<lparr>total_activities = 0,
         active_activities = 0,
         pending_activities = 0,
         total_participants = 0,
         this_month_activities = 0\<rparr>)"

section \<open>Sample data\<close>

text \<open>
  Concrete inputs on which the theorems below are run. \<open>activity_1\<close> follows the first
  record of \<^verbatim>\<open>mockActivities\<close>, with plain ASCII texts and without the joined category,
  organizer and tags; \<open>sample_activity\<close> is the same record under another id and owner.
  \<open>sample_env\<close> is a clock reading and a random value \<open>rnd / 2 ^ 53\<close>, a calendar of
  average month and year lengths, and an HTTP client that is offline.
\<close>

definition sample_activity :: "string \<Rightarrow> string \<Rightarrow> Activity" where
  "sample_activity ident owner =
     \<lparr>activity_id = ident,
      title = ''Yoga for beginners'',
      description = ''Yoga classes for people without experience.'',
      shortDescription = Some ''Yoga for newcomers'',
      activity_type = ''activity'',
      categoryId = ''1'',
      category = None,
      location = ''Helsinki'',
      address = Some ''Central park, pavilion A'',
      price = 15,
      currency = ''EUR'',
      imageUrl = None,
      userId = owner,
      organizer = None,
      tags = [],
      startDate = Some 1706803200000,
      endDate = Some 1706808600000,
      maxParticipants = Some 20,
      minAge = Some 16,
      maxAge = Some 65,
      contactEmail = Some ''contact@energyclub.fi'',
      contactPhone = Some ''+358401234567'',
      externalLink = Some ''https://energyclub.fi/yoga'',
      isDeleted = False,
      createdAt = 1705314600000,
      updatedAt = 1705314600000\<rparr>"

definition activity_1 :: Activity where
  "activity_1 = sample_activity ''activity-1'' ''user-1''"

definition sample_db :: "Activity list \<Rightarrow> mockData" where
  "sample_db acts = \<lparr>mockCategories = [], mockTags = [], mockUsers = [], mockActivities = acts\<rparr>"

definition sample_form :: ActivityFormData where
  "sample_form =
     \<lparr>form_title = ''Evening yoga'',
      form_description = ''Yoga classes in the evening.'',
      form_type = ''activity'',
      form_categoryId = ''1'',
      form_location = ''Helsinki'',
      form_address = None,
      form_price = Some 12,
      form_image = None,
      form_tags = None,
      form_startDate = None,
      form_endDate = None,
      form_maxParticipants = Some 10,
      form_minAge = None,
      form_maxAge = None,
      form_contactEmail = None,
      form_contactPhone = None,
      form_externalLink = None\<rparr>"

definition sample_env :: "date \<Rightarrow> int \<Rightarrow> env" where
  "sample_env now rnd =
     \<lparr>Date_now = now,
      Date_parse = (\<lambda>_. 0),
      getMonth = (\<lambda>d. nat (d div 2629746000 mod 12)),
      getFullYear = (\<lambda>d. 1970 + d div 31556952000),
      Math_random = (rnd, 53),
      apiClient_get = (\<lambda>_. Inl (BackendError ''offline''))\<rparr>"

definition no_filters :: ActivityFilters where
  "no_filters =
     \<lparr>filter_type = None, filter_categoryId = None, filter_location = None,
      filter_minPrice = None, filter_maxPrice = None, filter_search = None\<rparr>"

text \<open>
  A wire record and a backend that answers every request with the given rows and
  \<^verbatim>\<open>Content-Range\<close> header.
\<close>

definition sample_raw :: RawActivityData where
  "sample_raw =
     \<lparr>raw_id = ''activity-3'',
      raw_title = ''Football tournament'',
      raw_description = ''A friendly tournament for young players.'',
      raw_short_description = None,
      raw_type = ''competition'',
      raw_category_id = ''1'',
      raw_location = ''Turku'',
      raw_price = 0,
      raw_currency = ''EUR'',
      raw_date_time = ''2024-02-15T10:00:00'',
      raw_max_participants = 48,
      raw_organizer_id = ''user-1'',
      raw_contact_email = ''football@energyclub.fi'',
      raw_contact_phone = None,
      raw_image_urls = None,
      raw_tags = None,
      raw_created_at = ''2024-01-25T09:15:00'',
      raw_updated_at = ''2024-01-25T09:15:00'',
      raw_categories = None,
      raw_user_profiles = None\<rparr>"

definition sample_backend ::
  "RawActivityData list \<Rightarrow> string option \<Rightarrow> (string \<times> string) list \<Rightarrow> error + response" where
  "sample_backend rows header q = Inr \<lparr>response_data = Some rows, content_range = header\<rparr>"

definition sample_backend_env :: "RawActivityData list \<Rightarrow> string option \<Rightarrow> env" where
  "sample_backend_env rows header =
     (sample_env 1705400000000 0)\<lparr>apiClient_get := sample_backend rows header\<rparr>"

section \<open>The page-number window\<close>

lemma pushPages_upto: "pushPages i e pages = pages @ [i..e]"
proof (induction i e pages rule: pushPages.induct)
  case (1 i e pages)
  show ?case
  proof (cases "i \<le> e")
    case True
    then have "pushPages i e pages = pushPages (i + 1) e (pages @ [i])" by simp
    also have "\<dots> = (pages @ [i]) @ [i + 1..e]" using 1 True by simp
    also have "\<dots> = pages @ [i..e]" using True by (simp add: upto_rec1)
    finally show ?thesis .
  next
    case False
    then show ?thesis by simp
  qed
qed

text \<open>
  Claim C8. For \<open>1 \<le> currentPage \<le> totalPages\<close> and a window size \<open>w \<ge> 1\<close>, the page
  numbers shown are exactly the run \<open>[start..end]\<close> with
  \<open>start\<^sub>0 = max 1 (currentPage - w div 2)\<close>, \<open>end = min totalPages (start\<^sub>0 + w - 1)\<close> and
  \<open>start = max 1 (end - w + 1)\<close>. The code re-centres only when the first window is
  shorter than \<open>w\<close>; in the other case the re-centred start is the old one, so the
  unconditional formula describes both. The run has at most \<open>w\<close> numbers, lies within
  \<open>1..totalPages\<close> and contains the current page.
\<close>

theorem getPageNumbers_window:
  assumes "1 \<le> currentPage" and "currentPage \<le> totalPages" and "1 \<le> w"
  defines "start0 \<equiv> max 1 (currentPage - w div 2)"
  defines "end' \<equiv> min totalPages (start0 + w - 1)"
  defines "start \<equiv> max 1 (end' - w + 1)"
  shows "getPageNumbers currentPage totalPages w = [start..end']
       \<and> int (length (getPageNumbers currentPage totalPages w)) \<le> w
       \<and> set (getPageNumbers currentPage totalPages w) \<subseteq> {1..totalPages}
       \<and> currentPage \<in> set (getPageNumbers currentPage totalPages w)"
proof -
  have st: "(if end' - start0 + 1 < w then max 1 (end' - w + 1) else start0) = start"
    unfolding start_def end'_def start0_def by (simp add: max_def min_def)
  have "getPageNumbers currentPage totalPages w
        = [(if end' - start0 + 1 < w then max 1 (end' - w + 1) else start0)..end']"
    unfolding getPageNumbers_def Let_def pushPages_upto
    by (simp only: start0_def [symmetric] end'_def [symmetric] append_Nil)
  then have eq: "getPageNumbers currentPage totalPages w = [start..end']"
    by (simp only: st)
  have "w div 2 \<le> w - 1" using assms(3) by linarith
  then have "start \<le> currentPage" "currentPage \<le> end'" "1 \<le> start"
      "end' \<le> totalPages" "end' - start + 1 \<le> w"
    using assms(1-3) unfolding start_def end'_def start0_def
    by (auto simp: max_def min_def)
  then show ?thesis unfolding eq by auto
qed

theorem getPageNumbers_window_witness:
  "(1::int) \<le> 9 \<and> (9::int) \<le> 10 \<and> (1::int) \<le> 5
   \<and> getPageNumbers 9 10 5 = [6, 7, 8, 9, 10]
   \<and> int (length (getPageNumbers 9 10 5)) \<le> 5
   \<and> set (getPageNumbers 9 10 5) \<subseteq> {1..10}
   \<and> 9 \<in> set (getPageNumbers 9 10 5)"
  using getPageNumbers_window [of 9 10 5] by (simp add: upto_rec1)

section \<open>The authorization decision\<close>

lemma roleGrants_iff:
  "roleGrants ur r \<longleftrightarrow>
     ur = Some ''admin''
     \<or> (ur = Some ''organizer'' \<and> toLowerCase r \<in> {''organizer'', ''user''})
     \<or> ur = Some (toLowerCase r)"
  unfolding roleGrants_def Let_def by (simp only: if_bool_eq_disj insert_iff empty_iff) blast

lemma bex_disj_split:
  "(\<exists>r\<in>R. A \<or> (B \<and> f r \<in> S) \<or> ur = Some (f r)) \<longleftrightarrow>
     (R \<noteq> {} \<and> A) \<or> (B \<and> f ` R \<inter> S \<noteq> {}) \<or> (\<exists>x. ur = Some x \<and> x \<in> f ` R)"
  by blast

lemma list_ex_roleGrants:
  "list_ex (roleGrants ur) roles \<longleftrightarrow>
     (roles \<noteq> [] \<and> ur = Some ''admin'')
     \<or> (ur = Some ''organizer'' \<and> toLowerCase ` set roles \<inter> {''organizer'', ''user''} \<noteq> {})
     \<or> (\<exists>x. ur = Some x \<and> x \<in> toLowerCase ` set roles)"
  unfolding list_ex_iff roleGrants_iff bex_disj_split by (simp only: set_empty)

text \<open>
  Claim C1, as the code decides it. For a call that is not loading, with an identity and
  at least one role to check, the children are rendered exactly when the identity's role
  is \<open>admin\<close>, or it is \<open>organizer\<close> and \<^emph>\<open>some\<close> required role is \<open>organizer\<close> or
  \<open>user\<close>, or it is one of the required roles; all comparisons after lower-casing.
  Otherwise the result is the redirect to \<^verbatim>\<open>/unauthorized\<close>. An admin identity is
  rendered for every choice of the role props, the empty one included.
\<close>

theorem ProtectedRoute_decision:
  assumes "\<not> loading" and "roles = rolesToCheck requiredRoles requiredRole" and "roles \<noteq> []"
  shows "ProtectedRoute (Some u) loading requiredRoles requiredRole redirectTo =
           (if (\<exists>role. user_role u = Some role \<and>
                  (toLowerCase role = ''admin''
                   \<or> (toLowerCase role = ''organizer''
                       \<and> toLowerCase ` set roles \<inter> {''organizer'', ''user''} \<noteq> {})
                   \<or> toLowerCase role \<in> toLowerCase ` set roles))
            then Children else Navigate ''/unauthorized'')
         \<and> (\<forall>role rs r. user_role u = Some role \<and> toLowerCase role = ''admin'' \<longrightarrow>
               ProtectedRoute (Some u) loading rs r redirectTo = Children)"
proof -
  let ?ur = "map_option toLowerCase (user_role u)"
  have 1: "ProtectedRoute (Some u) loading requiredRoles requiredRole redirectTo =
        (if list_ex (roleGrants ?ur) roles then Children
         else Navigate ''/unauthorized'')"
    using assms by (simp add: ProtectedRoute_def Let_def)
  have 2: "list_ex (roleGrants ?ur) roles \<longleftrightarrow>
     (\<exists>role. user_role u = Some role \<and>
                  (toLowerCase role = ''admin''
                   \<or> (toLowerCase role = ''organizer''
                       \<and> toLowerCase ` set roles \<inter> {''organizer'', ''user''} \<noteq> {})
                   \<or> toLowerCase role \<in> toLowerCase ` set roles))"
  proof (cases "user_role u")
    case None
    then show ?thesis unfolding list_ex_roleGrants by simp
  next
    case (Some role)
    then show ?thesis unfolding list_ex_roleGrants using assms(3) by simp
  qed
  have 3: "ProtectedRoute (Some u) loading rs r redirectTo = Children"
    if "user_role u = Some role" "toLowerCase role = ''admin''" for role rs r
  proof (cases "rolesToCheck rs r")
    case Nil
    then show ?thesis using assms(1) by (simp add: ProtectedRoute_def)
  next
    case (Cons a as)
    have "list_ex (roleGrants ?ur) (a # as)"
      unfolding list_ex_roleGrants using that by simp
    then show ?thesis using assms(1) Cons by (simp add: ProtectedRoute_def Let_def)
  qed
  show ?thesis unfolding 1 2 using 3 by blast
qed

theorem ProtectedRoute_decision_witness:
  "ProtectedRoute
     (Some \<lparr>user_id = ''user-2'', user_email = ''admin@hobbly.fi'',
            user_role = Some ''ADMIN'', user_fullName = None,
            user_organizationName = None, user_phone = None,
            user_createdAt = 0, user_updatedAt = 0\<rparr>)
     False None (Some ''organizer'') None = Children
   \<and> ProtectedRoute
     (Some \<lparr>user_id = ''user-2'', user_email = ''admin@hobbly.fi'',
            user_role = Some ''ADMIN'', user_fullName = None,
            user_organizationName = None, user_phone = None,
            user_createdAt = 0, user_updatedAt = 0\<rparr>)
     False (Some [''nobody'']) None None = Children
   \<and> ProtectedRoute
     (Some \<lparr>user_id = ''user-3'', user_email = ''user@example.com'',
            user_role = Some ''user'', user_fullName = None,
            user_organizationName = None, user_phone = None,
            user_createdAt = 0, user_updatedAt = 0\<rparr>)
     False (Some [''Organizer'']) None None = Navigate ''/unauthorized''"
  using ProtectedRoute_decision [of False "[''organizer'']" None "Some ''organizer''"
     "\<lparr>user_id = ''user-2'', user_email = ''admin@hobbly.fi'',
            user_role = Some ''ADMIN'', user_fullName = None,
            user_organizationName = None, user_phone = None,
            user_createdAt = 0, user_updatedAt = 0\<rparr>" None]
    ProtectedRoute_decision [of False "[''Organizer'']" "Some [''Organizer'']" None
     "\<lparr>user_id = ''user-3'', user_email = ''user@example.com'',
            user_role = Some ''user'', user_fullName = None,
            user_organizationName = None, user_phone = None,
            user_createdAt = 0, user_updatedAt = 0\<rparr>" None]
  by (simp add: rolesToCheck_def toLowerCase_def toLowerCase_char_def)

text \<open>
  The specification's wording asks, for an organizer, that every required role be
  \<open>organizer\<close> or \<open>user\<close>. The code asks it of one of them: an organizer passes a route
  that requires \<open>admin\<close> or \<open>user\<close>.
\<close>

theorem ProtectedRoute_subset_counterexample:
  "ProtectedRoute
     (Some \<lparr>user_id = ''user-1'', user_email = ''organizer@example.com'',
            user_role = Some ''organizer'', user_fullName = None,
            user_organizationName = None, user_phone = None,
            user_createdAt = 0, user_updatedAt = 0\<rparr>)
     False (Some [''admin'', ''user'']) None None = Children
   \<and> \<not> allowed_spec ''organizer'' [''admin'', ''user'']"
  by (simp add: ProtectedRoute_def rolesToCheck_def roleGrants_def allowed_spec_def
      toLowerCase_def toLowerCase_char_def)

section \<open>Update and soft delete\<close>

lemma findIndex_None_iff: "findIndex P xs = None \<longleftrightarrow> \<not> (\<exists>x\<in>set xs. P x)"
  by (induction xs) auto

lemma findIndex_find_None: "findIndex P xs = None \<longleftrightarrow> find P xs = None"
  by (induction xs) auto

lemma findIndex_Some:
  "findIndex P xs = Some i \<Longrightarrow> i < length xs \<and> P (xs ! i) \<and> find P xs = Some (xs ! i)"
proof (induction xs arbitrary: i)
  case Nil
  then show ?case by simp
next
  case (Cons x xs)
  show ?case
  proof (cases "P x")
    case True
    with Cons.prems show ?thesis by simp
  next
    case False
    with Cons.prems obtain j where j: "findIndex P xs = Some j" "i = Suc j" by auto
    from Cons.IH [OF j(1)] False j(2) show ?thesis by simp
  qed
qed

lemma find_findIndex:
  "find P xs = Some r \<Longrightarrow> \<exists>i. findIndex P xs = Some i \<and> xs ! i = r"
proof -
  assume a: "find P xs = Some r"
  then have "findIndex P xs \<noteq> None" by (simp add: findIndex_find_None)
  then obtain i where i: "findIndex P xs = Some i" by auto
  from findIndex_Some [OF i] a show ?thesis using i by simp
qed

lemma findIndex_update:
  "findIndex P xs = Some i \<Longrightarrow> P y \<Longrightarrow> findIndex P (xs[i := y]) = Some i"
proof (induction xs arbitrary: i)
  case Nil
  then show ?case by simp
next
  case (Cons x xs)
  show ?case
  proof (cases "P x")
    case True
    with Cons.prems show ?thesis by simp
  next
    case False
    with Cons.prems obtain j where j: "findIndex P xs = Some j" "i = Suc j" by auto
    from Cons.IH [OF j(1) Cons.prems(2)] False j(2) show ?thesis by simp
  qed
qed

lemma find_update:
  assumes "findIndex P xs = Some i" and "P y"
  shows "find P (xs[i := y]) = Some y"
proof -
  from findIndex_update [OF assms] have "findIndex P (xs[i := y]) = Some i" .
  from findIndex_Some [OF this] findIndex_Some [OF assms(1)] show ?thesis by simp
qed

lemma sample_find:
  "find (\<lambda>a. activity_id a = ''activity-1'') (mockActivities (sample_db [activity_1]))
     = Some activity_1"
  by (simp add: sample_db_def activity_1_def sample_activity_def)

lemma sample_owner: "userId activity_1 = ''user-1''"
  by (simp add: activity_1_def sample_activity_def)

text \<open>
  Claim C4. The record stored under an id is the one the lookup finds, the first with that
  id. When the record stored under the id belongs to another organizer than the
  caller, the update fails with \<open>PermissionDenied\<close>; when no record has the id, it fails
  with \<open>NotFound\<close>. In both cases the store is left as it was. The update makes no
  exception for an admin, so the first part holds for every caller, admin or not.
\<close>

theorem updateActivity_errors:
  "(find (\<lambda>a. activity_id a = ident) (mockActivities db) = Some r \<and> userId r \<noteq> organizerId
      \<longrightarrow> updateActivity e db ident formData organizerId = (Inl PermissionDenied, db))
   \<and> (\<not> (\<exists>a\<in>set (mockActivities db). activity_id a = ident)
      \<longrightarrow> updateActivity e db ident formData organizerId = (Inl NotFound, db))"
proof (intro conjI impI)
  assume "find (\<lambda>a. activity_id a = ident) (mockActivities db) = Some r \<and> userId r \<noteq> organizerId"
  then have f: "find (\<lambda>a. activity_id a = ident) (mockActivities db) = Some r"
    and ne: "userId r \<noteq> organizerId" by simp_all
  from find_findIndex [OF f] obtain i where
      "findIndex (\<lambda>a. activity_id a = ident) (mockActivities db) = Some i"
      "mockActivities db ! i = r" by (elim exE conjE)
  with ne have "findIndex (\<lambda>a. activity_id a = ident) (mockActivities db) = Some i"
      "mockActivities db ! i = r" "userId r \<noteq> organizerId" by simp_all
  then show "updateActivity e db ident formData organizerId = (Inl PermissionDenied, db)"
    by (simp add: updateActivity_def USE_MOCK_DATA_def)
next
  assume "\<not> (\<exists>a\<in>set (mockActivities db). activity_id a = ident)"
  then have "findIndex (\<lambda>a. activity_id a = ident) (mockActivities db) = None"
    by (simp add: findIndex_None_iff)
  then show "updateActivity e db ident formData organizerId = (Inl NotFound, db)"
    by (simp add: updateActivity_def USE_MOCK_DATA_def)
qed

theorem updateActivity_errors_witness:
  "updateActivity (sample_env 1705400000000 0) (sample_db [activity_1]) ''activity-1''
       sample_form ''user-2''
     = (Inl PermissionDenied, sample_db [activity_1])
   \<and> updateActivity (sample_env 1705400000000 0) (sample_db [activity_1]) ''activity-9''
       sample_form ''user-1''
     = (Inl NotFound, sample_db [activity_1])"
proof -
  have 1: "find (\<lambda>a. activity_id a = ''activity-1'') (mockActivities (sample_db [activity_1]))
             = Some activity_1 \<and> userId activity_1 \<noteq> ''user-2''"
    by (simp add: sample_find sample_owner)
  have 2: "\<not> (\<exists>a\<in>set (mockActivities (sample_db [activity_1])). activity_id a = ''activity-9'')"
    by (simp add: sample_db_def activity_1_def sample_activity_def)
  from 1 2 show ?thesis
    using updateActivity_errors [of "''activity-1''" "sample_db [activity_1]" activity_1
        "''user-2''" "sample_env 1705400000000 0" sample_form]
      updateActivity_errors [of "''activity-9''" "sample_db [activity_1]" activity_1
        "''user-1''" "sample_env 1705400000000 0" sample_form]
    by (simp only: simp_thms)
qed

text \<open>
  Claim C5. When the caller is neither the owner of the record stored under the id nor
  \<^verbatim>\<open>'admin-user'\<close>, the soft delete fails with \<open>PermissionDenied\<close> and the store is the
  one before the call: looking the id up afterwards gives the record as it was, with its
  \<open>isDeleted\<close> flag and every other field untouched.
\<close>

theorem deleteActivity_denied:
  assumes "find (\<lambda>a. activity_id a = ident) (mockActivities db) = Some r"
    and "userId r \<noteq> callerId" and "callerId \<noteq> ''admin-user''"
  shows "deleteActivity e db ident callerId = (Inl PermissionDenied, db)
       \<and> getActivityById (snd (deleteActivity e db ident callerId)) ident = Inr r"
proof -
  from find_findIndex [OF assms(1)] obtain i where
      "findIndex (\<lambda>a. activity_id a = ident) (mockActivities db) = Some i"
      "mockActivities db ! i = r" by (elim exE conjE)
  then have "deleteActivity e db ident callerId = (Inl PermissionDenied, db)"
    using assms(2,3) by (simp add: deleteActivity_def USE_MOCK_DATA_def)
  then show ?thesis using assms(1) by (simp add: getActivityById_def USE_MOCK_DATA_def)
qed

theorem deleteActivity_denied_witness:
  "deleteActivity (sample_env 1705400000000 0) (sample_db [activity_1]) ''activity-1'' ''user-2''
     = (Inl PermissionDenied, sample_db [activity_1])
   \<and> getActivityById (snd (deleteActivity (sample_env 1705400000000 0) (sample_db [activity_1])
         ''activity-1'' ''user-2'')) ''activity-1'' = Inr activity_1"
proof -
  have o: "userId activity_1 \<noteq> ''user-2''" by (simp add: sample_owner)
  have a: "''user-2'' \<noteq> ''admin-user''" by simp
  show ?thesis by (rule deleteActivity_denied [OF sample_find o a])
qed

lemma deleteActivity_allowed:
  assumes "find (\<lambda>a. activity_id a = ident) (mockActivities db) = Some r"
    and "userId r = callerId \<or> callerId = ''admin-user''"
  shows "\<exists>db'. deleteActivity e db ident callerId = (Inr (), db')
       \<and> find (\<lambda>a. activity_id a = ident) (mockActivities db')
           = Some (r\<lparr>isDeleted := True, updatedAt := Date_now e\<rparr>)"
proof -
  from find_findIndex [OF assms(1)] obtain i where
    i: "findIndex (\<lambda>a. activity_id a = ident) (mockActivities db) = Some i"
      "mockActivities db ! i = r" by (elim exE conjE)
  from findIndex_Some [OF i(1)] i(2) have "activity_id r = ident" by simp
  then have "find (\<lambda>a. activity_id a = ident)
          ((mockActivities db)[i := r\<lparr>isDeleted := True, updatedAt := Date_now e\<rparr>])
        = Some (r\<lparr>isDeleted := True, updatedAt := Date_now e\<rparr>)"
    using find_update [OF i(1), of "r\<lparr>isDeleted := True, updatedAt := Date_now e\<rparr>"] by simp
  then show ?thesis using i assms(2)
    by (simp add: deleteActivity_def USE_MOCK_DATA_def)
qed

text \<open>
  Claim C6. For an authorized caller, a first soft delete and a second one on the record
  that is then already deleted both succeed; the record is deleted after each, and its
  \<open>updatedAt\<close> is the clock reading of the latest call, so with a clock that has moved on
  the second call advances it again. Apart from \<open>updatedAt\<close> the second call changes
  nothing.
\<close>

theorem deleteActivity_idempotent:
  assumes "find (\<lambda>a. activity_id a = ident) (mockActivities db) = Some r"
    and "userId r = callerId \<or> callerId = ''admin-user''"
  shows "\<exists>db1 db2 r1 r2.
           deleteActivity e1 db ident callerId = (Inr (), db1)
         \<and> deleteActivity e2 db1 ident callerId = (Inr (), db2)
         \<and> getActivityById db1 ident = Inr r1 \<and> getActivityById db2 ident = Inr r2
         \<and> isDeleted r1 \<and> isDeleted r2
         \<and> updatedAt r1 = Date_now e1 \<and> updatedAt r2 = Date_now e2
         \<and> (Date_now e1 < Date_now e2 \<longrightarrow> updatedAt r1 < updatedAt r2)
         \<and> r1 = r\<lparr>isDeleted := True, updatedAt := Date_now e1\<rparr>
         \<and> r2 = r1\<lparr>updatedAt := Date_now e2\<rparr>"
proof -
  let ?r1 = "r\<lparr>isDeleted := True, updatedAt := Date_now e1\<rparr>"
  from deleteActivity_allowed [OF assms, of e1] obtain db1 where
    1: "deleteActivity e1 db ident callerId = (Inr (), db1)"
       "find (\<lambda>a. activity_id a = ident) (mockActivities db1) = Some ?r1"
    by (elim exE conjE)
  have "userId ?r1 = callerId \<or> callerId = ''admin-user''" using assms(2) by simp
  from deleteActivity_allowed [OF 1(2) this, of e2] obtain db2 where
    2: "deleteActivity e2 db1 ident callerId = (Inr (), db2)"
       "find (\<lambda>a. activity_id a = ident) (mockActivities db2)
          = Some (?r1\<lparr>isDeleted := True, updatedAt := Date_now e2\<rparr>)"
    by (elim exE conjE)
  show ?thesis using 1 2 by (simp add: getActivityById_def USE_MOCK_DATA_def)
qed

theorem deleteActivity_idempotent_witness:
  "\<exists>db1 db2 r1 r2.
      deleteActivity (sample_env 1705400000000 0) (sample_db [activity_1]) ''activity-1'' ''user-1''
        = (Inr (), db1)
    \<and> deleteActivity (sample_env 1705400000500 0) db1 ''activity-1'' ''user-1'' = (Inr (), db2)
    \<and> getActivityById db1 ''activity-1'' = Inr r1 \<and> getActivityById db2 ''activity-1'' = Inr r2
    \<and> isDeleted r1 \<and> isDeleted r2
    \<and> updatedAt r1 = 1705400000000 \<and> updatedAt r2 = 1705400000500
    \<and> updatedAt r1 < updatedAt r2"
proof -
  have o: "userId activity_1 = ''user-1'' \<or> ''user-1'' = ''admin-user''"
    by (simp add: sample_owner)
  have n: "Date_now (sample_env 1705400000000 0) = 1705400000000"
    "Date_now (sample_env 1705400000500 0) = 1705400000500"
    by (simp_all add: sample_env_def)
  from deleteActivity_idempotent [OF sample_find o,
      of "sample_env 1705400000000 0" "sample_env 1705400000500 0"]
  obtain db1 db2 r1 r2 where
    "deleteActivity (sample_env 1705400000000 0) (sample_db [activity_1]) ''activity-1'' ''user-1''
        = (Inr (), db1)"
    "deleteActivity (sample_env 1705400000500 0) db1 ''activity-1'' ''user-1'' = (Inr (), db2)"
    "getActivityById db1 ''activity-1'' = Inr r1" "getActivityById db2 ''activity-1'' = Inr r2"
    "isDeleted r1" "isDeleted r2"
    "updatedAt r1 = 1705400000000" "updatedAt r2 = 1705400000500"
    unfolding n by (elim exE conjE)
  then show ?thesis by (intro exI [of _ db1] exI [of _ db2] exI [of _ r1] exI [of _ r2]) simp
qed

section \<open>The listing calls\<close>

lemma length_slice:
  assumes "0 \<le> off" and "0 \<le> n"
  shows "int (length (slice xs off (off + n))) = max 0 (min n (int (length xs) - off))"
proof -
  have "int (length (take (nat m) (drop (nat k) xs))) = max 0 (min m (int (length xs) - k))"
    if "0 \<le> k" for m k
    using that by (simp add: min_def max_def) linarith
  from this [of "min off (int (length xs))" "min (off + n) (int (length xs)) - min off (int (length xs))"]
  show ?thesis using assms unfolding slice_def Let_def
    by (simp add: min_def max_def split: if_splits)
qed

lemma set_slice: "set (slice xs a b) \<subseteq> set xs"
proof -
  have "set (take n (drop k xs)) \<subseteq> set xs" for n k
    using set_take_subset [of n "drop k xs"] set_drop_subset [of k xs] by blast
  then show ?thesis unfolding slice_def Let_def by simp
qed

lemma slice_all:
  assumes "int (length xs) \<le> n"
  shows "slice xs 0 n = xs"
  using assms unfolding slice_def Let_def by (simp add: min_def)

lemma Math_ceil_div_Num:
  assumes "limit \<noteq> 0"
  shows "Math_ceil_div (Num t) limit = Num \<lceil>real_of_int t / real_of_int limit\<rceil>"
  using assms by (simp add: Math_ceil_div_def ceiling_divide_eq_div)

lemma getUserActivities_mock:
  "getUserActivities e db organizerId page limit =
     (let userActivities = filter
            (\<lambda>activity. userId activity = organizerId \<or> organizerId = ''current-user'')
            (mockActivities db);
          sel = (if userActivities = [] then mockActivities db else userActivities);
          totalPages = Math_ceil_div (Num (int (length sel))) limit
      in Inr \<lparr>l_activities = slice sel ((page - 1) * limit) ((page - 1) * limit + limit),
              l_pagination =
                \<lparr>p_page = page, p_limit = limit, p_total = Num (int (length sel)),
                 p_totalPages = totalPages,
                 p_hasNext = less_number page totalPages,
                 p_hasPrevious = (page > 1)\<rparr>\<rparr>)"
  unfolding getUserActivities_def USE_MOCK_DATA_def Let_def by simp

lemma selection_cases:
  fixes db organizerId
  defines "userActivities \<equiv> filter
            (\<lambda>activity. userId activity = organizerId \<or> organizerId = ''current-user'')
            (mockActivities db)"
  shows "(organizerId = ''current-user'' \<or> \<not> (\<exists>a\<in>set (mockActivities db). userId a = organizerId)
          \<longrightarrow> (if userActivities = [] then mockActivities db else userActivities) = mockActivities db)
       \<and> (organizerId \<noteq> ''current-user'' \<and> (\<exists>a\<in>set (mockActivities db). userId a = organizerId)
          \<longrightarrow> (if userActivities = [] then mockActivities db else userActivities)
              = filter (\<lambda>a. userId a = organizerId) (mockActivities db))"
proof (intro conjI impI)
  assume a: "organizerId = ''current-user'' \<or> \<not> (\<exists>a\<in>set (mockActivities db). userId a = organizerId)"
  show "(if userActivities = [] then mockActivities db else userActivities) = mockActivities db"
  proof (cases "organizerId = ''current-user''")
    case True
    then have "userActivities = mockActivities db" unfolding userActivities_def by simp
    then show ?thesis by simp
  next
    case False
    with a have "\<not> (\<exists>a\<in>set (mockActivities db). userId a = organizerId)" by simp
    with False have "userActivities = []" unfolding userActivities_def
      by (simp add: filter_empty_conv)
    then show ?thesis by simp
  qed
next
  assume b: "organizerId \<noteq> ''current-user'' \<and> (\<exists>a\<in>set (mockActivities db). userId a = organizerId)"
  then have 1: "userActivities = filter (\<lambda>a. userId a = organizerId) (mockActivities db)"
    unfolding userActivities_def by simp
  from b have "filter (\<lambda>a. userId a = organizerId) (mockActivities db) \<noteq> []"
    by (simp add: filter_empty_conv)
  with 1 show "(if userActivities = [] then mockActivities db else userActivities)
              = filter (\<lambda>a. userId a = organizerId) (mockActivities db)" by simp
qed

lemma getActivities_Inr:
  assumes "getActivities e filters page limit = Inr r"
  shows "p_totalPages (l_pagination r) = Math_ceil_div (p_total (l_pagination r)) limit
       \<and> p_hasNext (l_pagination r) = less_number page (p_totalPages (l_pagination r))
       \<and> p_hasPrevious (l_pagination r) = (1 < page)
       \<and> p_page (l_pagination r) = page \<and> p_limit (l_pagination r) = limit"
proof (cases "apiClient_get e (getActivities_query filters page limit)")
  case (Inl err)
  with assms show ?thesis by (simp add: getActivities_def)
next
  case (Inr response)
  with assms show ?thesis unfolding getActivities_def Let_def by auto
qed

lemma getActivities_response:
  assumes "apiClient_get e (getActivities_query filters page limit) = Inr resp"
  shows "\<exists>r. getActivities e filters page limit = Inr r
       \<and> l_activities r = map (transformRawActivity e)
            (case response_data resp of Some rows \<Rightarrow> rows | None \<Rightarrow> [])
       \<and> p_total (l_pagination r)
           = (case content_range resp of
                Some cr \<Rightarrow>
                  if cr \<noteq> []
                  then parseInt (case split_on CHR ''/'' cr of _ # x # _ \<Rightarrow> Some x | _ \<Rightarrow> None)
                  else Num (int (length (case response_data resp of
                                           Some rows \<Rightarrow> rows | None \<Rightarrow> [])))
              | None \<Rightarrow> Num (int (length (case response_data resp of
                                           Some rows \<Rightarrow> rows | None \<Rightarrow> []))))"
  using assms unfolding getActivities_def Let_def by (simp split: option.split)

lemma sample_all_live: "\<forall>a\<in>set (mockActivities (sample_db [activity_1])). \<not> isDeleted a"
  by (simp add: sample_db_def activity_1_def sample_activity_def)

lemma sample_deleted_page:
  "slice (if ''user-1'' = ''current-user''
            \<or> \<not> (\<exists>a\<in>set (mockActivities
                  (sample_db [activity_1\<lparr>isDeleted := True\<rparr>,
                              sample_activity ''activity-2'' ''user-1''])). userId a = ''user-1'')
          then mockActivities (sample_db [activity_1\<lparr>isDeleted := True\<rparr>,
                              sample_activity ''activity-2'' ''user-1''])
          else filter (\<lambda>a. userId a = ''user-1'')
                 (mockActivities (sample_db [activity_1\<lparr>isDeleted := True\<rparr>,
                              sample_activity ''activity-2'' ''user-1''])))
     ((1 - 1) * 1) ((1 - 1) * 1 + 1)
   = [activity_1\<lparr>isDeleted := True\<rparr>]"
  by code_simp

lemma sample_total: "parseInt (case split_on CHR ''/'' ''0-1/5'' of _ # x # _ \<Rightarrow> Some x | _ \<Rightarrow> None) = Num 5"
  by code_simp

lemma sample_page_two:
  "getUserActivities (sample_backend_env [sample_raw, sample_raw] (Some ''0-1/5''))
      (sample_db [activity_1, sample_activity ''activity-2'' ''user-1'',
                  sample_activity ''activity-3'' ''user-1'']) ''user-1'' 2 2
   = Inr \<lparr>l_activities = [sample_activity ''activity-3'' ''user-1''],
          l_pagination = \<lparr>p_page = 2, p_limit = 2, p_total = Num 3, p_totalPages = Num 2,
             p_hasNext = False, p_hasPrevious = True\<rparr>\<rparr>"
  by code_simp

text \<open>
  Claim C2, as the code behaves. The owner listing applies no \<open>isDeleted\<close> filter. For
  every organizer id, page and limit its items are exactly the slice
  \<open>[(page - 1) * limit, (page - 1) * limit + limit)\<close> of the selected records, which are all
  stored records when the id is \<^verbatim>\<open>'current-user'\<close> or owns none, and the organizer's stored
  records otherwise, soft-deleted ones included and in stored order. Every item is thus a
  stored record with the flag it is stored with: the items are all live when no stored
  record is soft-deleted, and on the first page with a limit that holds the whole store,
  every stored record of the organizer is listed, soft-deleted or not.
\<close>

theorem getUserActivities_not_filtered:
  "\<exists>r. getUserActivities e db organizerId page limit = Inr r
      \<and> l_activities r
          = slice (if organizerId = ''current-user''
                      \<or> \<not> (\<exists>a\<in>set (mockActivities db). userId a = organizerId)
                   then mockActivities db
                   else filter (\<lambda>a. userId a = organizerId) (mockActivities db))
              ((page - 1) * limit) ((page - 1) * limit + limit)
      \<and> set (l_activities r) \<subseteq> set (mockActivities db)
      \<and> ((\<forall>a\<in>set (mockActivities db). \<not> isDeleted a)
           \<longrightarrow> (\<forall>a\<in>set (l_activities r). \<not> isDeleted a))
      \<and> (page = 1 \<and> int (length (mockActivities db)) \<le> limit
           \<longrightarrow> (\<forall>a\<in>set (mockActivities db). userId a = organizerId \<longrightarrow> a \<in> set (l_activities r)))"
proof -
  define U where "U = filter
      (\<lambda>activity. userId activity = organizerId \<or> organizerId = ''current-user'')
      (mockActivities db)"
  define sel where "sel = (if U = [] then mockActivities db else U)"
  define items where "items = slice sel ((page - 1) * limit) ((page - 1) * limit + limit)"
  have "set U \<subseteq> set (mockActivities db)" unfolding U_def by (rule filter_is_subset)
  then have sub: "set sel \<subseteq> set (mockActivities db)" unfolding sel_def by simp
  have len: "length sel \<le> length (mockActivities db)" unfolding sel_def U_def by simp
  have own: "a \<in> set sel" if "a \<in> set (mockActivities db)" "userId a = organizerId" for a
  proof (cases "U = []")
    case True
    then show ?thesis using that unfolding sel_def by simp
  next
    case False
    moreover have "a \<in> set U" using that unfolding U_def by simp
    ultimately show ?thesis unfolding sel_def by simp
  qed
  have exact: "sel = (if organizerId = ''current-user''
                      \<or> \<not> (\<exists>a\<in>set (mockActivities db). userId a = organizerId)
                   then mockActivities db
                   else filter (\<lambda>a. userId a = organizerId) (mockActivities db))"
  proof (cases "organizerId = ''current-user''
                      \<or> \<not> (\<exists>a\<in>set (mockActivities db). userId a = organizerId)")
    case True
    from mp [OF conjunct1 [OF selection_cases [of organizerId db]] True] True
    show ?thesis unfolding sel_def U_def by (simp only: if_True)
  next
    case False
    then have b: "organizerId \<noteq> ''current-user''
        \<and> (\<exists>a\<in>set (mockActivities db). userId a = organizerId)" by simp
    from mp [OF conjunct2 [OF selection_cases [of organizerId db]] b] False
    show ?thesis unfolding sel_def U_def by (simp only: if_False)
  qed
  have 1: "set items \<subseteq> set (mockActivities db)"
    unfolding items_def by (rule order_trans [OF set_slice sub])
  have 2: "items = sel" if "page = 1" "int (length (mockActivities db)) \<le> limit"
    unfolding items_def using that len by (simp add: slice_all)
  define r where "r = \<lparr>l_activities = items,
       l_pagination = \<lparr>p_page = page, p_limit = limit, p_total = Num (int (length sel)),
          p_totalPages = Math_ceil_div (Num (int (length sel))) limit,
          p_hasNext = less_number page (Math_ceil_div (Num (int (length sel))) limit),
          p_hasPrevious = (page > 1)\<rparr>\<rparr>"
  have g: "getUserActivities e db organizerId page limit = Inr r"
    unfolding getUserActivities_mock Let_def r_def items_def sel_def U_def by simp
  have ra: "l_activities r = items" unfolding r_def by simp
  show ?thesis
  proof (intro exI [of _ r] conjI impI ballI)
    show "getUserActivities e db organizerId page limit = Inr r" by (rule g)
  next
    show "l_activities r
          = slice (if organizerId = ''current-user''
                      \<or> \<not> (\<exists>a\<in>set (mockActivities db). userId a = organizerId)
                   then mockActivities db
                   else filter (\<lambda>a. userId a = organizerId) (mockActivities db))
              ((page - 1) * limit) ((page - 1) * limit + limit)"
      unfolding ra items_def by (simp only: exact [symmetric])
  next
    show "set (l_activities r) \<subseteq> set (mockActivities db)" unfolding ra by (rule 1)
  next
    fix a assume "\<forall>a\<in>set (mockActivities db). \<not> isDeleted a" "a \<in> set (l_activities r)"
    then show "\<not> isDeleted a" using 1 unfolding ra by (simp add: subset_iff)
  next
    fix a assume "page = 1 \<and> int (length (mockActivities db)) \<le> limit"
      "a \<in> set (mockActivities db)" "userId a = organizerId"
    then show "a \<in> set (l_activities r)" unfolding ra using 2 own by simp
  qed
qed

theorem getUserActivities_not_filtered_witness:
  "(\<exists>r. getUserActivities (sample_env 1705400000000 0) (sample_db [activity_1]) ''user-1'' 1 10 = Inr r
      \<and> l_activities r = [activity_1] \<and> \<not> isDeleted activity_1)
   \<and> (\<exists>r. getUserActivities (sample_env 1705400000000 0)
            (sample_db [activity_1\<lparr>isDeleted := True\<rparr>, sample_activity ''activity-2'' ''user-1''])
            ''user-1'' 1 1 = Inr r
      \<and> l_activities r = [activity_1\<lparr>isDeleted := True\<rparr>]
      \<and> isDeleted (activity_1\<lparr>isDeleted := True\<rparr>))"
proof -
  let ?e = "sample_env 1705400000000 0" and ?db = "sample_db [activity_1]"
  let ?dd = "sample_db [activity_1\<lparr>isDeleted := True\<rparr>, sample_activity ''activity-2'' ''user-1'']"
  from getUserActivities_not_filtered [of ?e ?db "''user-1''" 1 10]
  obtain r where r: "getUserActivities ?e ?db ''user-1'' 1 10 = Inr r"
    "(\<forall>a\<in>set (mockActivities ?db). \<not> isDeleted a) \<longrightarrow> (\<forall>a\<in>set (l_activities r). \<not> isDeleted a)"
    by (elim exE conjE)
  have ev: "getUserActivities ?e ?db ''user-1'' 1 10
      = Inr \<lparr>l_activities = [activity_1],
             l_pagination = \<lparr>p_page = 1, p_limit = 10, p_total = Num 1, p_totalPages = Num 1,
               p_hasNext = False, p_hasPrevious = False\<rparr>\<rparr>"
    by (simp add: getUserActivities_def USE_MOCK_DATA_def sample_db_def activity_1_def
        sample_activity_def slice_def Math_ceil_div_def less_number_def)
  with r(1) have l: "l_activities r = [activity_1]" by auto
  from r(2) sample_all_live l have "\<not> isDeleted activity_1" by simp
  with r(1) l have A: "\<exists>r. getUserActivities ?e ?db ''user-1'' 1 10 = Inr r
      \<and> l_activities r = [activity_1] \<and> \<not> isDeleted activity_1"
    by (intro exI [of _ r]) simp
  from getUserActivities_not_filtered [of ?e ?dd "''user-1''" 1 1]
  obtain r' where r': "getUserActivities ?e ?dd ''user-1'' 1 1 = Inr r'"
    "l_activities r'
          = slice (if ''user-1'' = ''current-user''
                      \<or> \<not> (\<exists>a\<in>set (mockActivities ?dd). userId a = ''user-1'')
                   then mockActivities ?dd
                   else filter (\<lambda>a. userId a = ''user-1'') (mockActivities ?dd))
              ((1 - 1) * 1) ((1 - 1) * 1 + 1)"
    by (elim exE conjE)
  from r'(2) have "l_activities r' = [activity_1\<lparr>isDeleted := True\<rparr>]"
    unfolding sample_deleted_page .
  with r'(1) have B: "\<exists>r. getUserActivities ?e ?dd ''user-1'' 1 1 = Inr r
      \<and> l_activities r = [activity_1\<lparr>isDeleted := True\<rparr>]
      \<and> isDeleted (activity_1\<lparr>isDeleted := True\<rparr>)"
    by (intro exI [of _ r']) simp
  from A B show ?thesis by (rule conjI)
qed

text \<open>
  After the owner soft-deletes the record, the owner listing returns it, with
  \<open>isDeleted = True\<close>.
\<close>

theorem getUserActivities_lists_deleted_counterexample:
  "getUserActivities (sample_env 1705400000500 0)
       (snd (deleteActivity (sample_env 1705400000000 0) (sample_db [activity_1])
               ''activity-1'' ''user-1''))
       ''user-1'' 1 10
     = Inr \<lparr>l_activities = [activity_1\<lparr>isDeleted := True, updatedAt := 1705400000000\<rparr>],
            l_pagination = \<lparr>p_page = 1, p_limit = 10, p_total = Num 1, p_totalPages = Num 1,
               p_hasNext = False, p_hasPrevious = False\<rparr>\<rparr>
   \<and> isDeleted (activity_1\<lparr>isDeleted := True, updatedAt := 1705400000000\<rparr>)"
  by code_simp

text \<open>
  Claim C7, as the code behaves. When the organizer id is \<^verbatim>\<open>'current-user'\<close> or no stored
  record belongs to it, the page is cut from all stored records and the total counts them
  all. When the id is not \<^verbatim>\<open>'current-user'\<close> and some stored record belongs to it, the
  page is cut from that organizer's records, the total counts those, and every item
  belongs to the organizer.
\<close>

theorem getUserActivities_owner_or_all:
  "\<exists>r. getUserActivities e db organizerId page limit = Inr r
     \<and> (organizerId = ''current-user''
          \<or> \<not> (\<exists>a\<in>set (mockActivities db). userId a = organizerId)
        \<longrightarrow> l_activities r
              = slice (mockActivities db) ((page - 1) * limit) ((page - 1) * limit + limit)
            \<and> p_total (l_pagination r) = Num (int (length (mockActivities db))))
     \<and> (organizerId \<noteq> ''current-user''
          \<and> (\<exists>a\<in>set (mockActivities db). userId a = organizerId)
        \<longrightarrow> l_activities r
              = slice (filter (\<lambda>a. userId a = organizerId) (mockActivities db))
                  ((page - 1) * limit) ((page - 1) * limit + limit)
            \<and> p_total (l_pagination r)
              = Num (int (length (filter (\<lambda>a. userId a = organizerId) (mockActivities db))))
            \<and> (\<forall>a\<in>set (l_activities r). userId a = organizerId))"
proof -
  define U where "U = filter
      (\<lambda>activity. userId activity = organizerId \<or> organizerId = ''current-user'')
      (mockActivities db)"
  define sel where "sel = (if U = [] then mockActivities db else U)"
  define r where "r = \<lparr>l_activities = slice sel ((page - 1) * limit) ((page - 1) * limit + limit),
       l_pagination = \<lparr>p_page = page, p_limit = limit, p_total = Num (int (length sel)),
          p_totalPages = Math_ceil_div (Num (int (length sel))) limit,
          p_hasNext = less_number page (Math_ceil_div (Num (int (length sel))) limit),
          p_hasPrevious = (page > 1)\<rparr>\<rparr>"
  have g: "getUserActivities e db organizerId page limit = Inr r"
    unfolding getUserActivities_mock Let_def r_def sel_def U_def by simp
  have a: "sel = mockActivities db"
    if "organizerId = ''current-user'' \<or> \<not> (\<exists>a\<in>set (mockActivities db). userId a = organizerId)"
    using that selection_cases [of organizerId db] unfolding sel_def U_def by simp
  have b: "sel = filter (\<lambda>a. userId a = organizerId) (mockActivities db)"
    if "organizerId \<noteq> ''current-user'' \<and> (\<exists>a\<in>set (mockActivities db). userId a = organizerId)"
    using that selection_cases [of organizerId db] unfolding sel_def U_def by simp
  have c: "\<forall>a\<in>set (slice (filter (\<lambda>a. userId a = organizerId) (mockActivities db)) i j).
             userId a = organizerId" for i j
    using set_slice [of "filter (\<lambda>a. userId a = organizerId) (mockActivities db)" i j] by auto
  have ra: "l_activities r = slice sel ((page - 1) * limit) ((page - 1) * limit + limit)"
    and rt: "p_total (l_pagination r) = Num (int (length sel))"
    unfolding r_def by simp_all
  show ?thesis
  proof (intro exI [of _ r] conjI impI)
    show "getUserActivities e db organizerId page limit = Inr r" by (rule g)
  next
    assume h: "organizerId = ''current-user'' \<or> \<not> (\<exists>a\<in>set (mockActivities db). userId a = organizerId)"
    show "l_activities r = slice (mockActivities db) ((page - 1) * limit) ((page - 1) * limit + limit)"
      unfolding ra a [OF h] ..
    show "p_total (l_pagination r) = Num (int (length (mockActivities db)))"
      unfolding rt a [OF h] ..
  next
    assume h: "organizerId \<noteq> ''current-user'' \<and> (\<exists>a\<in>set (mockActivities db). userId a = organizerId)"
    show "l_activities r = slice (filter (\<lambda>a. userId a = organizerId) (mockActivities db))
                  ((page - 1) * limit) ((page - 1) * limit + limit)"
      unfolding ra b [OF h] ..
    show "p_total (l_pagination r)
              = Num (int (length (filter (\<lambda>a. userId a = organizerId) (mockActivities db))))"
      unfolding rt b [OF h] ..
    show "\<forall>a\<in>set (l_activities r). userId a = organizerId"
      unfolding ra b [OF h] by (rule c)
  qed
qed

theorem getUserActivities_owner_or_all_witness:
  "(\<exists>r. getUserActivities (sample_env 1705400000000 0)
          (sample_db [activity_1, sample_activity ''activity-4'' ''user-2'']) ''user-2'' 1 10 = Inr r
      \<and> l_activities r = [sample_activity ''activity-4'' ''user-2'']
      \<and> p_total (l_pagination r) = Num 1)
   \<and> (\<exists>r. getUserActivities (sample_env 1705400000000 0)
          (sample_db [activity_1, sample_activity ''activity-4'' ''user-2'']) ''user-9'' 1 10 = Inr r
      \<and> l_activities r = [activity_1, sample_activity ''activity-4'' ''user-2'']
      \<and> p_total (l_pagination r) = Num 2)"
proof -
  let ?e = "sample_env 1705400000000 0"
  let ?db = "sample_db [activity_1, sample_activity ''activity-4'' ''user-2'']"
  have m: "mockActivities ?db = [activity_1, sample_activity ''activity-4'' ''user-2'']"
    by (simp add: sample_db_def)
  have u: "userId activity_1 = ''user-1''" "userId (sample_activity ''activity-4'' ''user-2'') = ''user-2''"
    by (simp_all add: activity_1_def sample_activity_def)
  have h2: "''user-2'' \<noteq> ''current-user'' \<and> (\<exists>a\<in>set (mockActivities ?db). userId a = ''user-2'')"
    unfolding m by (simp add: u)
  have h9: "''user-9'' = ''current-user'' \<or> \<not> (\<exists>a\<in>set (mockActivities ?db). userId a = ''user-9'')"
    unfolding m by (simp add: u)
  from getUserActivities_owner_or_all [of ?e ?db "''user-2''" 1 10]
  obtain r2 where g2: "getUserActivities ?e ?db ''user-2'' 1 10 = Inr r2"
    and i2: "''user-2'' \<noteq> ''current-user'' \<and> (\<exists>a\<in>set (mockActivities ?db). userId a = ''user-2'')
      \<longrightarrow> l_activities r2 = slice (filter (\<lambda>a. userId a = ''user-2'') (mockActivities ?db))
                  ((1 - 1) * 10) ((1 - 1) * 10 + 10)
        \<and> p_total (l_pagination r2)
            = Num (int (length (filter (\<lambda>a. userId a = ''user-2'') (mockActivities ?db))))
        \<and> (\<forall>a\<in>set (l_activities r2). userId a = ''user-2'')"
    by (elim exE conjE)
  from getUserActivities_owner_or_all [of ?e ?db "''user-9''" 1 10]
  obtain r9 where g9: "getUserActivities ?e ?db ''user-9'' 1 10 = Inr r9"
    and i9: "''user-9'' = ''current-user'' \<or> \<not> (\<exists>a\<in>set (mockActivities ?db). userId a = ''user-9'')
      \<longrightarrow> l_activities r9 = slice (mockActivities ?db) ((1 - 1) * 10) ((1 - 1) * 10 + 10)
        \<and> p_total (l_pagination r9) = Num (int (length (mockActivities ?db)))"
    by (elim exE conjE)
  note r2 = g2 conjunct1 [OF mp [OF i2 h2]] conjunct1 [OF conjunct2 [OF mp [OF i2 h2]]]
  note r9 = g9 conjunct1 [OF mp [OF i9 h9]] conjunct2 [OF mp [OF i9 h9]]
  have f2: "filter (\<lambda>a. userId a = ''user-2'') [activity_1, sample_activity ''activity-4'' ''user-2'']
      = [sample_activity ''activity-4'' ''user-2'']"
    by (simp add: u)
  have "l_activities r2 = [sample_activity ''activity-4'' ''user-2'']"
    "p_total (l_pagination r2) = Num 1"
    unfolding r2(2,3) m f2 by (simp_all add: slice_def)
  moreover have "l_activities r9 = [activity_1, sample_activity ''activity-4'' ''user-2'']"
    "p_total (l_pagination r9) = Num 2"
    unfolding r9(2,3) m by (simp_all add: slice_def)
  ultimately show ?thesis using r2(1) r9(1)
    by (intro conjI exI [of _ r2] exI [of _ r9])
qed

text \<open>
  With the id \<^verbatim>\<open>'current-user'\<close> the filter lets every record through: a record owned by
  \<open>user-1\<close> is returned although a record owned by \<^verbatim>\<open>'current-user'\<close> is in the store.
\<close>

theorem getUserActivities_current_user_counterexample:
  "getUserActivities (sample_env 1705400000000 0)
       (sample_db [sample_activity ''activity-7'' ''current-user'', activity_1])
       ''current-user'' 1 10
     = Inr \<lparr>l_activities = [sample_activity ''activity-7'' ''current-user'', activity_1],
            l_pagination = \<lparr>p_page = 1, p_limit = 10, p_total = Num 2, p_totalPages = Num 1,
               p_hasNext = False, p_hasPrevious = False\<rparr>\<rparr>
   \<and> userId (sample_activity ''activity-7'' ''current-user'') = ''current-user''
   \<and> userId activity_1 \<noteq> ''current-user''"
  by (simp add: getUserActivities_def USE_MOCK_DATA_def sample_db_def
      activity_1_def sample_activity_def slice_def Math_ceil_div_def less_number_def)

text \<open>
  Claim C3, as the code behaves. For \<open>page \<ge> 1\<close> and \<open>limit \<ge> 1\<close>: the owner listing
  returns a page whose total \<open>t\<close> is a number \<open>\<ge> 0\<close>, with \<open>totalPages = \<lceil>t / limit\<rceil>\<close>,
  \<open>hasNext = (page < totalPages)\<close>, \<open>hasPrevious = (page > 1)\<close> and
  \<open>max 0 (min limit (t - (page - 1) * limit))\<close> items, hence at most \<open>limit\<close>. The general
  listing returns, whenever its total is a number \<open>t \<ge> 0\<close>, the same \<open>totalPages\<close>,
  \<open>hasNext\<close> and \<open>hasPrevious\<close>. Its items are the rows of the backend's response, each
  transformed, as many as the backend sent; its total is the number of those rows when the
  response has no \<^verbatim>\<open>Content-Range\<close> header (or an empty one), and otherwise what
  \<^verbatim>\<open>parseInt\<close> reads after the first \<open>/\<close> of the header.
\<close>

theorem listing_pagination:
  assumes "1 \<le> page" and "1 \<le> limit"
  shows "(\<exists>r t. getUserActivities e db organizerId page limit = Inr r
          \<and> p_total (l_pagination r) = Num t \<and> 0 \<le> t
          \<and> p_totalPages (l_pagination r) = Num \<lceil>real_of_int t / real_of_int limit\<rceil>
          \<and> p_hasNext (l_pagination r) = (page < \<lceil>real_of_int t / real_of_int limit\<rceil>)
          \<and> p_hasPrevious (l_pagination r) = (1 < page)
          \<and> int (length (l_activities r)) = max 0 (min limit (t - (page - 1) * limit))
          \<and> int (length (l_activities r)) \<le> limit)
       \<and> (\<forall>r t. getActivities e filters page limit = Inr r
              \<and> p_total (l_pagination r) = Num t \<and> 0 \<le> t
            \<longrightarrow> p_totalPages (l_pagination r) = Num \<lceil>real_of_int t / real_of_int limit\<rceil>
              \<and> p_hasNext (l_pagination r) = (page < \<lceil>real_of_int t / real_of_int limit\<rceil>)
              \<and> p_hasPrevious (l_pagination r) = (1 < page))
       \<and> (\<forall>resp. apiClient_get e (getActivities_query filters page limit) = Inr resp
            \<longrightarrow> (\<exists>r. getActivities e filters page limit = Inr r
                  \<and> l_activities r = map (transformRawActivity e)
                      (case response_data resp of Some rows \<Rightarrow> rows | None \<Rightarrow> [])
                  \<and> length (l_activities r)
                    = length (case response_data resp of Some rows \<Rightarrow> rows | None \<Rightarrow> [])
                  \<and> (content_range resp = None \<or> content_range resp = Some []
                       \<longrightarrow> p_total (l_pagination r)
                           = Num (int (length (case response_data resp of
                                                 Some rows \<Rightarrow> rows | None \<Rightarrow> []))))
                  \<and> (\<forall>cr. content_range resp = Some cr \<and> cr \<noteq> []
                       \<longrightarrow> p_total (l_pagination r)
                           = parseInt (case split_on CHR ''/'' cr of
                                         _ # x # _ \<Rightarrow> Some x | _ \<Rightarrow> None))))"
proof (intro conjI allI impI)
  define U where "U = filter
      (\<lambda>activity. userId activity = organizerId \<or> organizerId = ''current-user'')
      (mockActivities db)"
  define sel where "sel = (if U = [] then mockActivities db else U)"
  define t where "t = int (length sel)"
  define r where "r = \<lparr>l_activities = slice sel ((page - 1) * limit) ((page - 1) * limit + limit),
       l_pagination = \<lparr>p_page = page, p_limit = limit, p_total = Num t,
          p_totalPages = Math_ceil_div (Num t) limit,
          p_hasNext = less_number page (Math_ceil_div (Num t) limit),
          p_hasPrevious = (page > 1)\<rparr>\<rparr>"
  have g: "getUserActivities e db organizerId page limit = Inr r"
    unfolding getUserActivities_mock Let_def r_def t_def sel_def U_def by simp
  have lim: "limit \<noteq> 0" "0 \<le> limit" using assms(2) by simp_all
  have off: "0 \<le> (page - 1) * limit" using assms by simp
  have len: "int (length (l_activities r)) = max 0 (min limit (t - (page - 1) * limit))"
    unfolding r_def t_def using length_slice [OF off lim(2), of sel] by simp
  have "p_total (l_pagination r) = Num t" "0 \<le> t"
      "p_totalPages (l_pagination r) = Num \<lceil>real_of_int t / real_of_int limit\<rceil>"
      "p_hasNext (l_pagination r) = (page < \<lceil>real_of_int t / real_of_int limit\<rceil>)"
      "p_hasPrevious (l_pagination r) = (1 < page)"
    unfolding r_def t_def by (simp_all add: Math_ceil_div_Num [OF lim(1)] less_number_def)
  moreover have "int (length (l_activities r)) \<le> limit" unfolding len using lim(2) by simp
  ultimately show "\<exists>r t. getUserActivities e db organizerId page limit = Inr r
          \<and> p_total (l_pagination r) = Num t \<and> 0 \<le> t
          \<and> p_totalPages (l_pagination r) = Num \<lceil>real_of_int t / real_of_int limit\<rceil>
          \<and> p_hasNext (l_pagination r) = (page < \<lceil>real_of_int t / real_of_int limit\<rceil>)
          \<and> p_hasPrevious (l_pagination r) = (1 < page)
          \<and> int (length (l_activities r)) = max 0 (min limit (t - (page - 1) * limit))
          \<and> int (length (l_activities r)) \<le> limit"
    using g len by (intro exI [of _ r] exI [of _ t]) simp
next
  fix r t
  assume a: "getActivities e filters page limit = Inr r
              \<and> p_total (l_pagination r) = Num t \<and> 0 \<le> t"
  have lim: "limit \<noteq> 0" using assms(2) by simp
  from a getActivities_Inr [of e filters page limit r]
  have 1: "p_totalPages (l_pagination r) = Num \<lceil>real_of_int t / real_of_int limit\<rceil>"
    and 2: "p_hasNext (l_pagination r) = less_number page (p_totalPages (l_pagination r))"
    and 3: "p_hasPrevious (l_pagination r) = (1 < page)"
    by (simp_all add: Math_ceil_div_Num [OF lim])
  show "p_totalPages (l_pagination r) = Num \<lceil>real_of_int t / real_of_int limit\<rceil>" by (rule 1)
  show "p_hasNext (l_pagination r) = (page < \<lceil>real_of_int t / real_of_int limit\<rceil>)"
    unfolding 2 1 by (simp add: less_number_def)
  show "p_hasPrevious (l_pagination r) = (1 < page)" by (rule 3)
next
  fix resp
  assume "apiClient_get e (getActivities_query filters page limit) = Inr resp"
  from getActivities_response [OF this] obtain r where
    g: "getActivities e filters page limit = Inr r"
    and a: "l_activities r = map (transformRawActivity e)
            (case response_data resp of Some rows \<Rightarrow> rows | None \<Rightarrow> [])"
    and t: "p_total (l_pagination r)
           = (case content_range resp of
                Some cr \<Rightarrow>
                  if cr \<noteq> []
                  then parseInt (case split_on CHR ''/'' cr of _ # x # _ \<Rightarrow> Some x | _ \<Rightarrow> None)
                  else Num (int (length (case response_data resp of
                                           Some rows \<Rightarrow> rows | None \<Rightarrow> [])))
              | None \<Rightarrow> Num (int (length (case response_data resp of
                                           Some rows \<Rightarrow> rows | None \<Rightarrow> []))))"
    by (elim exE conjE)
  have n: "content_range resp = None \<or> content_range resp = Some []
       \<longrightarrow> p_total (l_pagination r)
           = Num (int (length (case response_data resp of Some rows \<Rightarrow> rows | None \<Rightarrow> [])))"
    unfolding t by (cases "content_range resp") simp_all
  have h: "\<forall>cr. content_range resp = Some cr \<and> cr \<noteq> []
       \<longrightarrow> p_total (l_pagination r)
           = parseInt (case split_on CHR ''/'' cr of _ # x # _ \<Rightarrow> Some x | _ \<Rightarrow> None)"
    unfolding t by (cases "content_range resp") simp_all
  have l: "length (l_activities r)
      = length (case response_data resp of Some rows \<Rightarrow> rows | None \<Rightarrow> [])"
    unfolding a by simp
  from g a l n h
  show "\<exists>r. getActivities e filters page limit = Inr r
                  \<and> l_activities r = map (transformRawActivity e)
                      (case response_data resp of Some rows \<Rightarrow> rows | None \<Rightarrow> [])
                  \<and> length (l_activities r)
                    = length (case response_data resp of Some rows \<Rightarrow> rows | None \<Rightarrow> [])
                  \<and> (content_range resp = None \<or> content_range resp = Some []
                       \<longrightarrow> p_total (l_pagination r)
                           = Num (int (length (case response_data resp of
                                                 Some rows \<Rightarrow> rows | None \<Rightarrow> []))))
                  \<and> (\<forall>cr. content_range resp = Some cr \<and> cr \<noteq> []
                       \<longrightarrow> p_total (l_pagination r)
                           = parseInt (case split_on CHR ''/'' cr of
                                         _ # x # _ \<Rightarrow> Some x | _ \<Rightarrow> None))"
    by (intro exI [of _ r] conjI)
qed

theorem listing_pagination_witness:
  "(\<exists>r. getUserActivities (sample_backend_env [sample_raw, sample_raw] (Some ''0-1/5''))
          (sample_db [activity_1, sample_activity ''activity-2'' ''user-1'',
                      sample_activity ''activity-3'' ''user-1'']) ''user-1'' 2 2 = Inr r
       \<and> p_total (l_pagination r) = Num 3
       \<and> p_totalPages (l_pagination r) = Num \<lceil>(3::real) / 2\<rceil>
       \<and> p_hasNext (l_pagination r) = (2 < \<lceil>(3::real) / 2\<rceil>)
       \<and> p_hasPrevious (l_pagination r) = True
       \<and> int (length (l_activities r)) = 1)
   \<and> (\<exists>r. getActivities (sample_backend_env [sample_raw, sample_raw] (Some ''0-1/5''))
          no_filters 2 2 = Inr r
       \<and> p_total (l_pagination r) = Num 5
       \<and> p_totalPages (l_pagination r) = Num \<lceil>(5::real) / 2\<rceil>
       \<and> p_hasNext (l_pagination r) = (2 < \<lceil>(5::real) / 2\<rceil>)
       \<and> p_hasPrevious (l_pagination r) = True
       \<and> length (l_activities r) = 2)
   \<and> (\<exists>r. getActivities (sample_backend_env [sample_raw] None) no_filters 2 2 = Inr r
       \<and> p_total (l_pagination r) = Num 1
       \<and> p_totalPages (l_pagination r) = Num \<lceil>(1::real) / 2\<rceil>
       \<and> p_hasNext (l_pagination r) = (2 < \<lceil>(1::real) / 2\<rceil>)
       \<and> p_hasPrevious (l_pagination r) = True
       \<and> length (l_activities r) = 1)"
proof -
  let ?db = "sample_db [activity_1, sample_activity ''activity-2'' ''user-1'',
                      sample_activity ''activity-3'' ''user-1'']"
  let ?b = "sample_backend_env [sample_raw, sample_raw] (Some ''0-1/5'')"
  let ?c = "sample_backend_env [sample_raw] None"
  let ?rb = "\<lparr>response_data = Some [sample_raw, sample_raw], content_range = Some ''0-1/5''\<rparr>"
  let ?rc = "\<lparr>response_data = Some [sample_raw], content_range = None\<rparr>"
  have p: "(1::int) \<le> 2" by simp
  note inst = listing_pagination [OF p p, of ?b ?db "''user-1''" no_filters]
  note inst' = listing_pagination [OF p p, of ?c ?db "''user-1''" no_filters]
  from conjunct1 [OF inst] obtain r t where
    r: "getUserActivities ?b ?db ''user-1'' 2 2 = Inr r" "p_total (l_pagination r) = Num t"
      "p_totalPages (l_pagination r) = Num \<lceil>real_of_int t / real_of_int 2\<rceil>"
      "p_hasNext (l_pagination r) = (2 < \<lceil>real_of_int t / real_of_int 2\<rceil>)"
      "p_hasPrevious (l_pagination r) = (1 < (2::int))"
      "int (length (l_activities r)) = max 0 (min 2 (t - (2 - 1) * 2))"
    by (elim exE conjE)
  from r(1,2) have t: "t = 3" unfolding sample_page_two by auto
  have 1: "\<exists>r. getUserActivities ?b ?db ''user-1'' 2 2 = Inr r
       \<and> p_total (l_pagination r) = Num 3
       \<and> p_totalPages (l_pagination r) = Num \<lceil>(3::real) / 2\<rceil>
       \<and> p_hasNext (l_pagination r) = (2 < \<lceil>(3::real) / 2\<rceil>)
       \<and> p_hasPrevious (l_pagination r) = True
       \<and> int (length (l_activities r)) = 1"
    using r unfolding t by (intro exI [of _ r]) simp
  have q: "apiClient_get ?b (getActivities_query no_filters 2 2) = Inr ?rb"
    by (simp add: sample_backend_env_def sample_backend_def)
  from mp [OF spec [OF conjunct2 [OF conjunct2 [OF inst]]] q] obtain r' where
    r': "getActivities ?b no_filters 2 2 = Inr r'"
      "length (l_activities r') = length (case response_data ?rb
           of Some rows \<Rightarrow> rows | None \<Rightarrow> [])"
      "\<forall>cr. content_range ?rb = Some cr \<and> cr \<noteq> []
         \<longrightarrow> p_total (l_pagination r')
             = parseInt (case split_on CHR ''/'' cr of _ # x # _ \<Rightarrow> Some x | _ \<Rightarrow> None)"
    by (elim exE conjE)
  have hb: "content_range ?rb = Some ''0-1/5'' \<and> ''0-1/5'' \<noteq> []" by simp
  have tot: "p_total (l_pagination r') = Num 5"
    using mp [OF spec [OF r'(3)] hb] unfolding sample_total .
  from conjunct1 [OF conjunct2 [OF inst]] r'(1) tot
  have "p_totalPages (l_pagination r') = Num \<lceil>real_of_int 5 / real_of_int 2\<rceil>
      \<and> p_hasNext (l_pagination r') = (2 < \<lceil>real_of_int 5 / real_of_int 2\<rceil>)
      \<and> p_hasPrevious (l_pagination r') = (1 < (2::int))"
    by simp
  then have 2: "\<exists>r. getActivities ?b no_filters 2 2 = Inr r
       \<and> p_total (l_pagination r) = Num 5
       \<and> p_totalPages (l_pagination r) = Num \<lceil>(5::real) / 2\<rceil>
       \<and> p_hasNext (l_pagination r) = (2 < \<lceil>(5::real) / 2\<rceil>)
       \<and> p_hasPrevious (l_pagination r) = True
       \<and> length (l_activities r) = 2"
    using r' tot by (intro exI [of _ r']) simp
  have q': "apiClient_get ?c (getActivities_query no_filters 2 2) = Inr ?rc"
    by (simp add: sample_backend_env_def sample_backend_def)
  from mp [OF spec [OF conjunct2 [OF conjunct2 [OF inst']]] q'] obtain r'' where
    r'': "getActivities ?c no_filters 2 2 = Inr r''"
      "length (l_activities r'') = length (case response_data ?rc
           of Some rows \<Rightarrow> rows | None \<Rightarrow> [])"
      "content_range ?rc = None \<or> content_range ?rc = Some []
         \<longrightarrow> p_total (l_pagination r'')
             = Num (int (length (case response_data ?rc of Some rows \<Rightarrow> rows | None \<Rightarrow> [])))"
    by (elim exE conjE)
  have hc: "content_range ?rc = None \<or> content_range ?rc = Some []" by simp
  have tot': "p_total (l_pagination r'') = Num 1"
    using mp [OF r''(3) hc] by simp
  from conjunct1 [OF conjunct2 [OF inst']] r''(1) tot'
  have "p_totalPages (l_pagination r'') = Num \<lceil>real_of_int 1 / real_of_int 2\<rceil>
      \<and> p_hasNext (l_pagination r'') = (2 < \<lceil>real_of_int 1 / real_of_int 2\<rceil>)
      \<and> p_hasPrevious (l_pagination r'') = (1 < (2::int))"
    by simp
  then have 3: "\<exists>r. getActivities ?c no_filters 2 2 = Inr r
       \<and> p_total (l_pagination r) = Num 1
       \<and> p_totalPages (l_pagination r) = Num \<lceil>(1::real) / 2\<rceil>
       \<and> p_hasNext (l_pagination r) = (2 < \<lceil>(1::real) / 2\<rceil>)
       \<and> p_hasPrevious (l_pagination r) = True
       \<and> length (l_activities r) = 1"
    using r'' tot' by (intro exI [of _ r'']) simp
  from 1 2 3 show ?thesis by (intro conjI)
qed

text \<open>
  The general listing takes the number of rows on the page as the total when the response
  has no \<^verbatim>\<open>Content-Range\<close> header. On page 2 with limit 2 and one row returned, the total
  is 1 and there is one item, where \<open>min limit (total - (page - 1) * limit)\<close> clamped at 0
  is 0.
\<close>

theorem getActivities_page_without_header_counterexample:
  "getActivities (sample_backend_env [sample_raw] None) no_filters 2 2
     = Inr \<lparr>l_activities = [transformRawActivity (sample_backend_env [sample_raw] None) sample_raw],
            l_pagination = \<lparr>p_page = 2, p_limit = 2, p_total = Num 1, p_totalPages = Num 1,
               p_hasNext = False, p_hasPrevious = True\<rparr>\<rparr>
   \<and> int (length [transformRawActivity (sample_backend_env [sample_raw] None) sample_raw])
       \<noteq> max 0 (min 2 (1 - (2 - 1) * 2))"
  by (simp add: getActivities_def sample_backend_env_def sample_backend_def
      Math_ceil_div_def less_number_def)

section \<open>The price filter of the general listing\<close>

text \<open>
  What the query holds under the name \<open>price\<close>: the upper bound when there is one, else
  the lower bound when there is one.
\<close>

lemma getAll_without: "URLSearchParams_getAll k (filter (\<lambda>(k', _). k' \<noteq> k) ps) = []"
  by (induction ps) (auto simp: URLSearchParams_getAll_def)

lemma getAll_without_other:
  "k \<noteq> name \<Longrightarrow>
   URLSearchParams_getAll k (filter (\<lambda>(k', _). k' \<noteq> name) ps) = URLSearchParams_getAll k ps"
  by (induction ps) (auto simp: URLSearchParams_getAll_def)

lemma getAll_set_same: "URLSearchParams_getAll k (URLSearchParams_set k v ps) = [v]"
proof (induction ps)
  case Nil
  show ?case by (simp add: URLSearchParams_getAll_def)
next
  case (Cons p ps)
  obtain k' w where p: "p = (k', w)" by (cases p)
  show ?case
  proof (cases "k' = k")
    case True
    have "URLSearchParams_getAll k ((k, v) # filter (\<lambda>(k', _). k' \<noteq> k) ps)
          = v # URLSearchParams_getAll k (filter (\<lambda>(k', _). k' \<noteq> k) ps)"
      by (simp add: URLSearchParams_getAll_def)
    with True p show ?thesis by (simp add: getAll_without)
  next
    case False
    have "URLSearchParams_getAll k ((k', w) # URLSearchParams_set k v ps)
          = URLSearchParams_getAll k (URLSearchParams_set k v ps)"
      using False by (simp add: URLSearchParams_getAll_def)
    with False p Cons.IH show ?thesis by simp
  qed
qed

lemma getAll_set_other:
  assumes "k \<noteq> name"
  shows "URLSearchParams_getAll k (URLSearchParams_set name v ps) = URLSearchParams_getAll k ps"
proof (induction ps)
  case Nil
  show ?case using assms by (simp add: URLSearchParams_getAll_def)
next
  case (Cons p ps)
  obtain k' w where p: "p = (k', w)" by (cases p)
  show ?case
  proof (cases "k' = name")
    case True
    have "URLSearchParams_getAll k ((name, v) # filter (\<lambda>(k', _). k' \<noteq> name) ps)
          = URLSearchParams_getAll k (filter (\<lambda>(k', _). k' \<noteq> name) ps)"
      using assms by (simp add: URLSearchParams_getAll_def)
    also have "\<dots> = URLSearchParams_getAll k ps" by (rule getAll_without_other [OF assms])
    also have "\<dots> = URLSearchParams_getAll k ((k', w) # ps)"
      using True assms by (simp add: URLSearchParams_getAll_def)
    finally show ?thesis using True p by simp
  next
    case False
    have "URLSearchParams_getAll k ((k', w) # URLSearchParams_set name v ps)
          = URLSearchParams_getAll k ((k', w) # ps)"
      using Cons.IH by (simp add: URLSearchParams_getAll_def)
    with False p show ?thesis by simp
  qed
qed

lemma getAll_if_truthy:
  assumes "k \<noteq> name"
  shows "URLSearchParams_getAll k (if_truthy s (\<lambda>v. URLSearchParams_set name (f v)) q)
         = URLSearchParams_getAll k q"
  unfolding if_truthy_def using getAll_set_other [OF assms]
  by (simp split: option.split)

lemma getActivities_query_price:
  "URLSearchParams_getAll ''price'' (getActivities_query filters page limit)
   = (case filter_maxPrice filters of
        Some b \<Rightarrow> [''lte.'' @ toString b]
      | None \<Rightarrow> (case filter_minPrice filters of
                   Some a \<Rightarrow> [''gte.'' @ toString a]
                 | None \<Rightarrow> []))"
proof -
  have ne: "''price'' \<noteq> ''select''" "''price'' \<noteq> ''type''" "''price'' \<noteq> ''category_id''"
    "''price'' \<noteq> ''location''" "''price'' \<noteq> ''or''" "''price'' \<noteq> ''is_deleted''"
    "''price'' \<noteq> ''order''" "''price'' \<noteq> ''limit''" "''price'' \<noteq> ''offset''"
    by simp_all
  have e: "URLSearchParams_getAll ''price'' [] = []" by (simp add: URLSearchParams_getAll_def)
  note rw = getAll_set_other [OF ne(1)] getAll_set_other [OF ne(6)]
        getAll_set_other [OF ne(7)] getAll_set_other [OF ne(8)] getAll_set_other [OF ne(9)]
        getAll_if_truthy [OF ne(2)] getAll_if_truthy [OF ne(3)] getAll_if_truthy [OF ne(4)]
        getAll_if_truthy [OF ne(5)] getAll_set_same e option.case
  show ?thesis
  proof (cases "filter_maxPrice filters")
    case None
    note mx = this
    show ?thesis
    proof (cases "filter_minPrice filters")
      case None
      with mx show ?thesis unfolding getActivities_query_def Let_def by (simp only: rw)
    next
      case (Some a)
      with mx show ?thesis unfolding getActivities_query_def Let_def by (simp only: rw)
    qed
  next
    case (Some b)
    note mx = this
    show ?thesis
    proof (cases "filter_minPrice filters")
      case None
      with mx show ?thesis unfolding getActivities_query_def Let_def by (simp only: rw)
    next
      case (Some a)
      with mx show ?thesis unfolding getActivities_query_def Let_def by (simp only: rw)
    qed
  qed
qed

text \<open>
  Claim C9 asks for both price bounds in the query. With \<open>minPrice = 10\<close> and
  \<open>maxPrice = 50\<close> the query holds a single \<open>price\<close> parameter, the upper bound: the
  second \<^verbatim>\<open>queryParams.set('price', ...)\<close> replaces the value the first one stored.
\<close>

theorem getActivities_price_overwritten:
  "getActivities_query (no_filters\<lparr>filter_minPrice := Some 10, filter_maxPrice := Some 50\<rparr>) 1 10
     = [(''select'',
         ''*,category:categories(*),organizer:users(full_name,organization_name,email)''),
        (''price'', ''lte.50''),
        (''is_deleted'', ''eq.false''),
        (''order'', ''created_at.desc''),
        (''limit'', ''10''),
        (''offset'', ''0'')]
   \<and> URLSearchParams_getAll ''price''
       (getActivities_query (no_filters\<lparr>filter_minPrice := Some 10, filter_maxPrice := Some 50\<rparr>) 1 10)
     = [''lte.50'']"
proof -
  have query: "getActivities_query
        (no_filters\<lparr>filter_minPrice := Some 10, filter_maxPrice := Some 50\<rparr>) 1 10
     = [(''select'',
         ''*,category:categories(*),organizer:users(full_name,organization_name,email)''),
        (''price'', ''lte.50''),
        (''is_deleted'', ''eq.false''),
        (''order'', ''created_at.desc''),
        (''limit'', ''10''),
        (''offset'', ''0'')]"
    by code_simp
  show ?thesis unfolding query by (simp add: URLSearchParams_getAll_def)
qed

section \<open>The statistics call\<close>

text \<open>
  The binary64 product of a number in \<open>[0, 1)\<close> with 200 stays below 200 after rounding, so
  its floor lies between 0 and 199.
\<close>

lemma excess_bits_le: "p < 2 ^ (53 + n) \<Longrightarrow> excess_bits p \<le> n"
proof (induction n arbitrary: p)
  case 0
  then show ?case by (simp add: excess_bits.simps)
next
  case (Suc n)
  show ?case
  proof (cases "p < 2 ^ 53")
    case True
    then show ?thesis by (simp add: excess_bits.simps)
  next
    case False
    have "(2::int) ^ (53 + Suc n) = 2 * 2 ^ (53 + n)" by (simp only: add_Suc_right power_Suc)
    with Suc.prems have "p < 2 * 2 ^ (53 + n)" by (simp only:)
    then have "p div 2 < 2 ^ (53 + n)" by linarith
    from Suc.IH [OF this] False show ?thesis by (simp add: excess_bits.simps [of p])
  qed
qed

lemma round_half_even_upper: "2 * (round_half_even p s * 2 ^ s) \<le> 2 * p + 2 ^ s"
proof -
  define q where "q = p div 2 ^ s"
  define rest where "rest = p mod 2 ^ s"
  have p: "p = q * 2 ^ s + rest" unfolding q_def rest_def
    by (simp add: div_mult_mod_eq)
  have r: "0 \<le> rest" unfolding rest_def by simp
  have "round_half_even p s = q \<or> (round_half_even p s = q + 1 \<and> 2 ^ s \<le> 2 * rest)"
    unfolding round_half_even_def Let_def q_def [symmetric] rest_def [symmetric] by auto
  then show ?thesis
  proof
    assume "round_half_even p s = q"
    then show ?thesis using p r by simp
  next
    assume a: "round_half_even p s = q + 1 \<and> 2 ^ s \<le> 2 * rest"
    then have "2 * (round_half_even p s * 2 ^ s) = 2 * (q * 2 ^ s) + 2 * 2 ^ s"
      by (simp add: algebra_simps)
    also have "\<dots> \<le> 2 * (q * 2 ^ s) + 2 * rest + 2 ^ s" using a by simp
    also have "\<dots> = 2 * p + 2 ^ s" using p by simp
    finally show ?thesis .
  qed
qed

lemma round_half_even_nonneg: "0 \<le> p \<Longrightarrow> 0 \<le> round_half_even p s"
proof -
  assume "0 \<le> p"
  then have "0 \<le> p div 2 ^ s" by (simp add: pos_imp_zdiv_nonneg_iff)
  then show ?thesis unfolding round_half_even_def Let_def by simp
qed

lemma floor_times_200_range:
  assumes "unit_double d"
  shows "0 \<le> Math_floor (times_binary64 d 200) \<and> Math_floor (times_binary64 d 200) \<le> 199"
proof -
  obtain m k where d: "d = (m, k)" by (cases d)
  from assms d have m: "0 \<le> m" "m < 2 ^ 53" "m < 2 ^ k" by (simp_all add: unit_double_def)
  define p where "p = 200 * m"
  define s where "s = excess_bits p"
  define q where "q = round_half_even p s"
  have fl: "Math_floor (times_binary64 d 200) = (q * 2 ^ s) div 2 ^ k"
    unfolding d times_binary64_def Math_floor_def Let_def q_def s_def p_def by simp
  have "p < 2 ^ (53 + 8)" unfolding p_def using m(2) by simp
  then have s8: "s \<le> 8" unfolding s_def by (rule excess_bits_le)
  then have "(2::int) ^ s \<le> 2 ^ 8" by (intro power_increasing) simp_all
  then have ps: "(2::int) ^ s \<le> 256" by simp
  have p0: "0 \<le> p" unfolding p_def using m(1) by simp
  have q0: "0 \<le> q" unfolding q_def using p0 by (rule round_half_even_nonneg)
  from round_half_even_upper [of p s] have "2 * (q * 2 ^ s) \<le> 2 * p + 2 ^ s"
    unfolding q_def .
  also have "\<dots> \<le> 400 * m + 256" unfolding p_def using ps by simp
  also have "\<dots> < 400 * 2 ^ k" using m(3) by simp
  finally have up: "q * 2 ^ s < 200 * 2 ^ k" by simp
  have lo: "0 \<le> q * 2 ^ s" using q0 by simp
  have "0 \<le> (q * 2 ^ s) div 2 ^ k" using lo by (simp add: pos_imp_zdiv_nonneg_iff)
  moreover have "(q * 2 ^ s) div 2 ^ k < 200"
  proof -
    define a where "a = q * 2 ^ s"
    define c where "c = (2::int) ^ k"
    have c: "0 < c" unfolding c_def by simp
    have "a = (a div c) * c + a mod c" by (simp add: div_mult_mod_eq)
    moreover have "0 \<le> a mod c" using c by simp
    ultimately have "(a div c) * c \<le> a" by linarith
    also have "a < 200 * c" using up unfolding a_def c_def .
    finally have "a div c < 200" using c by (simp only: mult_less_cancel_right_pos)
    then show ?thesis unfolding a_def c_def .
  qed
  ultimately show ?thesis unfolding fl by simp
qed

lemma sample_draws:
  "unit_double (Math_random (sample_env 1705400000000 0))"
  "unit_double (Math_random (sample_env 1705400000000 2161727821137838))"
  "unit_double (Math_random (sample_env 1705400000000 9007199254740991))"
  "Math_floor (times_binary64 (Math_random (sample_env 1705400000000 0)) 200) = 0"
  "Math_floor (times_binary64 (Math_random (sample_env 1705400000000 2161727821137838)) 200) = 48"
  "Math_floor (times_binary64 (Math_random (sample_env 1705400000000 9007199254740991)) 200) = 199"
  by code_simp+

text \<open>
  Claim C10. For every binary64 value of \<^verbatim>\<open>Math.random()\<close> in \<open>[0, 1)\<close>, every store and
  every organizer id: \<open>pending_activities\<close> is 2; \<open>total_participants\<close> is the floor of the
  binary64 product of the random value with 200, plus 50, and lies between 50 and 249; it is
  the same for every store and organizer, and on one store two random values whose products
  have different floors give different counts.
\<close>

theorem getUserActivityStats_constants:
  assumes "unit_double (Math_random e)"
  shows "pending_activities (getUserActivityStats e db organizerId) = 2
       \<and> total_participants (getUserActivityStats e db organizerId)
           = Math_floor (times_binary64 (Math_random e) 200) + 50
       \<and> 50 \<le> total_participants (getUserActivityStats e db organizerId)
       \<and> total_participants (getUserActivityStats e db organizerId) \<le> 249
       \<and> (\<forall>db' organizerId'. total_participants (getUserActivityStats e db' organizerId')
              = total_participants (getUserActivityStats e db organizerId))
       \<and> (\<forall>e'. Math_floor (times_binary64 (Math_random e') 200)
                \<noteq> Math_floor (times_binary64 (Math_random e) 200)
              \<longrightarrow> total_participants (getUserActivityStats e' db organizerId)
                  \<noteq> total_participants (getUserActivityStats e db organizerId))"
proof -
  have 1: "total_participants (getUserActivityStats e' db' organizerId')
             = Math_floor (times_binary64 (Math_random e') 200) + 50"
    and 2: "pending_activities (getUserActivityStats e' db' organizerId') = 2"
    for e' db' organizerId'
    unfolding getUserActivityStats_def USE_MOCK_DATA_def Let_def by simp_all
  from floor_times_200_range [OF assms] show ?thesis unfolding 1 2 by simp
qed

theorem getUserActivityStats_constants_witness:
  "unit_double (Math_random (sample_env 1705400000000 2161727821137838))
   \<and> pending_activities (getUserActivityStats (sample_env 1705400000000 2161727821137838)
       (sample_db [activity_1]) ''user-1'') = 2
   \<and> total_participants (getUserActivityStats (sample_env 1705400000000 2161727821137838)
       (sample_db [activity_1]) ''user-1'') = 98
   \<and> total_participants (getUserActivityStats (sample_env 1705400000000 0)
       (sample_db [activity_1]) ''user-1'') = 50
   \<and> total_participants (getUserActivityStats (sample_env 1705400000000 9007199254740991)
       (sample_db [activity_1]) ''user-1'') = 249
   \<and> total_participants (getUserActivityStats (sample_env 1705400000000 0)
       (sample_db [activity_1]) ''user-1'')
     \<noteq> total_participants (getUserActivityStats (sample_env 1705400000000 2161727821137838)
       (sample_db [activity_1]) ''user-1'')"
proof -
  note a = getUserActivityStats_constants [OF sample_draws(1), of "sample_db [activity_1]" "''user-1''"]
  note b = getUserActivityStats_constants [OF sample_draws(2), of "sample_db [activity_1]" "''user-1''"]
  note c = getUserActivityStats_constants [OF sample_draws(3), of "sample_db [activity_1]" "''user-1''"]
  from a b c sample_draws(2) show ?thesis unfolding sample_draws(4-6) by simp
qed

end
